theory Spec2Isabelle
  imports Complex_Main "HOL-Library.Log_Nat"
begin

section \<open>Card manager: data model\<close>

text \<open>
  The repository holds two versions of one program, a card catalogue with a duel
  simulator: version 0.1 (the original ruleset) and version 0.2 (the revised ruleset).
  Definitions that differ between the two carry the suffix \<open>_01\<close> or \<open>_02\<close>.

  Numbers. The stat fields are Python \<open>int\<close>s (every one is produced by \<open>int(...)\<close>).
  The attack power, the damage and the hp of a battle snapshot are Python numbers that
  may be floats, since \<open>attack * 1.5\<close> and \<open>attack * 0.5\<close> are. They are modelled
  as rationals: an \<open>int\<close> is embedded by \<open>of_int\<close>, and every float that arises is
  a multiple of one half, which a binary float holds exactly while its magnitude stays
  below \<open>2 ^ 52\<close>. The definitions over \<open>number\<close> are the program for cards whose
  hp, attack and defense are at most \<open>2 ^ 50\<close> in magnitude, where no operation of a
  battle rounds. The section on Python floats models the numbers of version 0.1's
  battle as the \<open>int\<close>s and doubles they are, rounding included;
  \<open>battle_round_py_01_exact\<close> and \<open>battle_loop_01_is_float_loop\<close> prove that the two
  agree on the range, and the section on the capless loop shows where they part beyond
  it. (A product \<open>attack * 1.5\<close> with an attack from \<open>2 ^ 1024\<close> on raises
  \<open>OverflowError\<close>; that is outside both models.)

  Strings are byte lists holding the UTF-8 encoding of the source's literals; the
  program only compares them for equality.
\<close>

type_synonym number = rat

record card =
  name :: string
  hp :: number
  attack :: int
  defense :: int
  element :: string
  rarity :: string
  score :: number

text \<open>\<open>Card.__init__\<close> of version 0.1: \<open>self.score = hp + 4 * attack + 3 * defense\<close>.\<close>

definition Card_01 :: "string \<Rightarrow> number \<Rightarrow> int \<Rightarrow> int \<Rightarrow> string \<Rightarrow> string \<Rightarrow> card" where
  "Card_01 n h a d e r =
     \<lparr>name = n, hp = h, attack = a, defense = d, element = e, rarity = r,
      score = h + 4 * of_int a + 3 * of_int d\<rparr>"

text \<open>\<open>Card.__init__\<close> of version 0.2: \<open>self.score = hp + 4 * attack + 4 * defense\<close>.\<close>

definition Card_02 :: "string \<Rightarrow> number \<Rightarrow> int \<Rightarrow> int \<Rightarrow> string \<Rightarrow> string \<Rightarrow> card" where
  "Card_02 n h a d e r =
     \<lparr>name = n, hp = h, attack = a, defense = d, element = e, rarity = r,
      score = h + 4 * of_int a + 4 * of_int d\<rparr>"

section \<open>The element table\<close>

text \<open>
  The element names of the source, as UTF-8 bytes. In the order of the definitions
  below they are the code points U+706B (fire), U+6C34 (water), U+6728 (wood),
  U+7535 (electricity), U+51B0 (ice), U+571F (earth), U+5CA9 (rock), U+866B (insect),
  U+517D (beast), U+9F99 (dragon), U+795E U+79D8 (mystery), U+5149 U+660E (light)
  and U+6697 (dark).
\<close>

definition el_fire :: string where "el_fire = [CHR 0xE7, CHR 0x81, CHR 0xAB]"
definition el_water :: string where "el_water = [CHR 0xE6, CHR 0xB0, CHR 0xB4]"
definition el_wood :: string where "el_wood = [CHR 0xE6, CHR 0x9C, CHR 0xA8]"
definition el_electric :: string where "el_electric = [CHR 0xE7, CHR 0x94, CHR 0xB5]"
definition el_ice :: string where "el_ice = [CHR 0xE5, CHR 0x86, CHR 0xB0]"
definition el_earth :: string where "el_earth = [CHR 0xE5, CHR 0x9C, CHR 0x9F]"
definition el_rock :: string where "el_rock = [CHR 0xE5, CHR 0xB2, CHR 0xA9]"
definition el_insect :: string where "el_insect = [CHR 0xE8, CHR 0x99, CHR 0xAB]"
definition el_beast :: string where "el_beast = [CHR 0xE5, CHR 0x85, CHR 0xBD]"
definition el_dragon :: string where "el_dragon = [CHR 0xE9, CHR 0xBE, CHR 0x99]"
definition el_mystery :: string where
  "el_mystery = [CHR 0xE7, CHR 0xA5, CHR 0x9E, CHR 0xE7, CHR 0xA7, CHR 0x98]"
definition el_light :: string where
  "el_light = [CHR 0xE5, CHR 0x85, CHR 0x89, CHR 0xE6, CHR 0x98, CHR 0x8E]"
definition el_dark :: string where "el_dark = [CHR 0xE6, CHR 0x9A, CHR 0x97]"

text \<open>
  The two keys of an element's relation entry: U+514B, the elements it beats, and
  U+88AB U+514B, the elements it loses to.
\<close>

definition key_beats :: string where "key_beats = [CHR 0xE5, CHR 0x85, CHR 0x8B]"
definition key_loses_to :: string where
  "key_loses_to = [CHR 0xE8, CHR 0xA2, CHR 0xAB, CHR 0xE5, CHR 0x85, CHR 0x8B]"

text \<open>
  Version 0.2: \<open>element_relations\<close> is a dict from an element to a dict from the two
  keys to lists of elements.
\<close>

type_synonym relations_02 = "string \<rightharpoonup> string list"
type_synonym table_02 = "string \<rightharpoonup> relations_02"

definition element_relations_02 :: table_02 where
  "element_relations_02 = map_of
    [(el_fire, map_of [(key_beats, [el_wood, el_ice, el_beast]), (key_loses_to, [el_water, el_rock])]),
     (el_water, map_of [(key_beats, [el_fire]), (key_loses_to, [el_electric])]),
     (el_wood, map_of [(key_beats, [el_electric, el_earth]), (key_loses_to, [el_fire])]),
     (el_electric, map_of [(key_beats, [el_water]), (key_loses_to, [el_wood, el_light])]),
     (el_ice, map_of [(key_beats, [el_dragon]), (key_loses_to, [el_fire, el_mystery])]),
     (el_earth, map_of [(key_beats, [el_fire]), (key_loses_to, [el_water, el_wood])]),
     (el_rock, map_of [(key_beats, [el_electric, el_insect]),
                       (key_loses_to, [el_water, el_wood, el_mystery])]),
     (el_insect, map_of [(key_beats, [el_wood]), (key_loses_to, [el_dragon])]),
     (el_beast, map_of [(key_beats, [el_water, el_insect]), (key_loses_to, [el_fire, el_electric])]),
     (el_dragon, map_of [(key_beats, [el_dragon]), (key_loses_to, [el_dragon, el_mystery])]),
     (el_mystery, map_of [(key_beats, [el_ice]), (key_loses_to, [el_dark])]),
     (el_light, map_of [(key_beats, [el_dark]), (key_loses_to, [el_mystery])]),
     (el_dark, map_of [(key_beats, [el_mystery]), (key_loses_to, [el_light])])]"

text \<open>
  Version 0.1: the values under the two keys are a single element (a \<open>str\<close>) for four
  elements and the empty list for earth, so a value is a string or a list.
\<close>

datatype pyval = PStr string | PList "string list"

type_synonym relations_01 = "string \<rightharpoonup> pyval"
type_synonym table_01 = "string \<rightharpoonup> relations_01"

definition element_relations_01 :: table_01 where
  "element_relations_01 = map_of
    [(el_fire, map_of [(key_beats, PStr el_wood), (key_loses_to, PStr el_water)]),
     (el_water, map_of [(key_beats, PStr el_fire), (key_loses_to, PStr el_electric)]),
     (el_electric, map_of [(key_beats, PStr el_water), (key_loses_to, PStr el_wood)]),
     (el_wood, map_of [(key_beats, PStr el_electric), (key_loses_to, PStr el_fire)]),
     (el_earth, map_of [(key_beats, PList []), (key_loses_to, PList [])])]"

section \<open>calculate_attack\<close>

text \<open>\<open>d.get(k, default)\<close> of a Python dict.\<close>

definition dict_get :: "('k \<rightharpoonup> 'v) \<Rightarrow> 'k \<Rightarrow> 'v \<Rightarrow> 'v" where
  "dict_get d k dflt = (case d k of None \<Rightarrow> dflt | Some v \<Rightarrow> v)"

text \<open>
  Version 0.2. \<open>relations = self.element_relations.get(attacker_element, {})\<close>, then
  membership of the defender's element in \<open>relations.get(key, [])\<close>, the beats list
  first. The neutral branch returns \<open>attacker.attack\<close> itself.
\<close>

definition calculate_attack_02 :: "table_02 \<Rightarrow> card \<Rightarrow> card \<Rightarrow> number" where
  "calculate_attack_02 tbl attacker defender =
     (let attacker_element = element attacker;
          defender_element = element defender;
          relations = dict_get tbl attacker_element Map.empty
      in if defender_element \<in> set (dict_get relations key_beats [])
         then of_int (attack attacker) * (3 / 2)
         else if defender_element \<in> set (dict_get relations key_loses_to [])
         then of_int (attack attacker) * (1 / 2)
         else of_int (attack attacker))"

text \<open>
  Version 0.1 compares \<open>relations.get(key)\<close> with the defender's element by \<open>==\<close>:
  a missing key gives \<open>None\<close> and a list value is never equal to a string.
\<close>

definition py_eq_str :: "pyval option \<Rightarrow> string \<Rightarrow> bool" where
  "py_eq_str v s = (case v of Some (PStr t) \<Rightarrow> t = s | _ \<Rightarrow> False)"

definition calculate_attack_01 :: "table_01 \<Rightarrow> card \<Rightarrow> card \<Rightarrow> number" where
  "calculate_attack_01 tbl attacker defender =
     (let attacker_element = element attacker;
          defender_element = element defender;
          relations = dict_get tbl attacker_element Map.empty
      in if py_eq_str (relations key_beats) defender_element
         then of_int (attack attacker) * (3 / 2)
         else if py_eq_str (relations key_loses_to) defender_element
         then of_int (attack attacker) * (1 / 2)
         else of_int (attack attacker))"

text \<open>
  The claims speak of an attacker's beats set and loses-to set. These read them off a
  table: the elements listed under the key, none when the element or the key is absent
  (and, in version 0.1, the one element when the value is a string).
\<close>

definition beats_02 :: "table_02 \<Rightarrow> string \<Rightarrow> string set" where
  "beats_02 tbl e = (case tbl e of None \<Rightarrow> {} | Some r \<Rightarrow>
     (case r key_beats of None \<Rightarrow> {} | Some l \<Rightarrow> set l))"

definition loses_to_02 :: "table_02 \<Rightarrow> string \<Rightarrow> string set" where
  "loses_to_02 tbl e = (case tbl e of None \<Rightarrow> {} | Some r \<Rightarrow>
     (case r key_loses_to of None \<Rightarrow> {} | Some l \<Rightarrow> set l))"

fun pyval_elems :: "pyval option \<Rightarrow> string set" where
  "pyval_elems (Some (PStr t)) = {t}"
| "pyval_elems _ = {}"

definition beats_01 :: "table_01 \<Rightarrow> string \<Rightarrow> string set" where
  "beats_01 tbl e = (case tbl e of None \<Rightarrow> {} | Some r \<Rightarrow> pyval_elems (r key_beats))"

definition loses_to_01 :: "table_01 \<Rightarrow> string \<Rightarrow> string set" where
  "loses_to_01 tbl e = (case tbl e of None \<Rightarrow> {} | Some r \<Rightarrow> pyval_elems (r key_loses_to))"

text \<open>
  The multiplier as the specification words it, over the two sets: 1.5 for an element
  in the beats set, else 0.5 for one in the loses-to set, else 1.0.
\<close>

definition spec_multiplier :: "string set \<Rightarrow> string set \<Rightarrow> string \<Rightarrow> number" where
  "spec_multiplier beats loses_to d =
     (if d \<in> beats then 3 / 2 else if d \<in> loses_to then 1 / 2 else 1)"

section \<open>The manager's state\<close>

text \<open>
  Cards are objects: \<open>self.cards\<close> is a list of references, and \<open>simulate_battle\<close>
  and \<open>modify_card\<close> assign to fields of objects. The state is therefore a store of
  objects, the list of references, and the next free address; \<open>Card(...)\<close> allocates.
\<close>

type_synonym addr = nat

record manager =
  cards :: "addr list"
  store :: "addr \<Rightarrow> card"
  next_addr :: addr

definition new_object :: "card \<Rightarrow> manager \<Rightarrow> addr \<times> manager" where
  "new_object c m =
     (next_addr m, m\<lparr>store := (store m)(next_addr m := c), next_addr := next_addr m + 1\<rparr>)"

text \<open>Every reference held by the collection points to an allocated object.\<close>

definition wf_manager :: "manager \<Rightarrow> bool" where
  "wf_manager m = list_all (\<lambda>a. a < next_addr m) (cards m)"

section \<open>simulate_battle\<close>

text \<open>
  The damage expression of both versions:
  \<open>max(1, attackN - cM.defense) if attackN > cM.defense else 1\<close>.
\<close>

definition damage :: "number \<Rightarrow> int \<Rightarrow> number" where
  "damage attack_power dfn =
     (if attack_power > of_int dfn then max 1 (attack_power - of_int dfn) else 1)"

text \<open>
  The body of the round loop, the same in both versions but for the table behind
  \<open>calculate_attack\<close>. \<open>c1\<close> and \<open>c2\<close> are references; the four assignments to
  \<open>hp\<close> are made one after the other, as the source makes them. The damages are
  returned for the round's record.
\<close>

definition battle_round ::
  "(card \<Rightarrow> card \<Rightarrow> number) \<Rightarrow> addr \<Rightarrow> addr \<Rightarrow> (addr \<Rightarrow> card) \<Rightarrow> (addr \<Rightarrow> card) \<times> number \<times> number" where
  "battle_round calc c1 c2 s =
     (let attack1 = calc (s c1) (s c2);
          attack2 = calc (s c2) (s c1);
          damage1 = damage attack1 (defense (s c2));
          damage2 = damage attack2 (defense (s c1));
          s = s(c2 := (s c2)\<lparr>hp := hp (s c2) - damage1\<rparr>);
          s = s(c1 := (s c1)\<lparr>hp := hp (s c1) - damage2\<rparr>);
          s = s(c1 := (s c1)\<lparr>hp := max 0 (hp (s c1))\<rparr>);
          s = s(c2 := (s c2)\<lparr>hp := max 0 (hp (s c2))\<rparr>)
      in (s, damage1, damage2))"

text \<open>What a round prints: its number, the two damages and the two hp values.\<close>

record round_record =
  rr_round :: nat
  rr_damage1 :: number
  rr_damage2 :: number
  rr_hp1 :: number
  rr_hp2 :: number

text \<open>
  Version 0.2: \<open>while c1.hp > 0 and c2.hp > 0 and round_num <= 20\<close>. The result is
  the store, the round counter and the round log at the loop's exit.
\<close>

function battle_loop_02 ::
  "table_02 \<Rightarrow> addr \<Rightarrow> addr \<Rightarrow> (addr \<Rightarrow> card) \<Rightarrow> nat \<Rightarrow> round_record list
     \<Rightarrow> (addr \<Rightarrow> card) \<times> nat \<times> round_record list" where
  "battle_loop_02 tbl c1 c2 s round_num out =
     (if hp (s c1) > 0 \<and> hp (s c2) > 0 \<and> round_num \<le> 20 then
        (case battle_round (calculate_attack_02 tbl) c1 c2 s of (s', damage1, damage2) \<Rightarrow>
           battle_loop_02 tbl c1 c2 s' (round_num + 1)
             (out @ [\<lparr>rr_round = round_num, rr_damage1 = damage1, rr_damage2 = damage2,
                      rr_hp1 = hp (s' c1), rr_hp2 = hp (s' c2)\<rparr>]))
      else (s, round_num, out))"
  by pat_completeness auto
termination
  by (relation "measure (\<lambda>(tbl, c1, c2, s, round_num, out). 21 - round_num)") auto

text \<open>
  Version 0.1: \<open>while c1.hp > 0 and c2.hp > 0\<close>, with no cap. In exact numbers each
  round takes at least 1 from the hp of \<open>c1\<close>, which is positive when the round starts,
  so this function is total. It is the program's loop on the range of exact floats
  (\<open>battle_loop_01_is_float_loop\<close>); beyond that range the program's loop is
  \<open>battle_loop_py_01\<close>, which need not return.
\<close>

function battle_loop_01 ::
  "table_01 \<Rightarrow> addr \<Rightarrow> addr \<Rightarrow> (addr \<Rightarrow> card) \<Rightarrow> nat \<Rightarrow> round_record list
     \<Rightarrow> (addr \<Rightarrow> card) \<times> nat \<times> round_record list" where
  "battle_loop_01 tbl c1 c2 s round_num out =
     (if hp (s c1) > 0 \<and> hp (s c2) > 0 then
        (case battle_round (calculate_attack_01 tbl) c1 c2 s of (s', damage1, damage2) \<Rightarrow>
           battle_loop_01 tbl c1 c2 s' (round_num + 1)
             (out @ [\<lparr>rr_round = round_num, rr_damage1 = damage1, rr_damage2 = damage2,
                      rr_hp1 = hp (s' c1), rr_hp2 = hp (s' c2)\<rparr>]))
      else (s, round_num, out))"
  by pat_completeness auto
termination
proof (relation "measure (\<lambda>(tbl, c1, c2, s, round_num, out). nat \<lceil>hp (s c1)\<rceil>)", goal_cases)
  case 1
  show ?case by simp
next
  case (2 tbl c1 c2 s round_num out s' y damage1 damage2)
  have d: "1 \<le> damage a b" for a b
    by (simp add: damage_def)
  from 2 have pos: "0 < hp (s c1)"
    by simp
  have s': "s' = fst (battle_round (calculate_attack_01 tbl) c1 c2 s)"
    using 2(2) by (metis fst_conv)
  have "hp (s' c1) \<le> max 0 (hp (s c1) - 1)"
    unfolding s'
    using d [of "calculate_attack_01 tbl (s c1) (s c2)" "defense (s c2)"]
      d [of "calculate_attack_01 tbl (s c2) (s c1)" "defense (s c1)"]
    by (cases "c1 = c2") (simp_all add: battle_round_def Let_def max_def)
  then have "\<lceil>hp (s' c1)\<rceil> \<le> \<lceil>max 0 (hp (s c1) - 1)\<rceil>"
    by (rule ceiling_mono)
  also have "\<dots> < \<lceil>hp (s c1)\<rceil>"
    using pos by (simp add: max_def)
  finally show ?case
    using pos by simp
qed

text \<open>The result announced after the loop: a draw, or the first or second card wins.\<close>

datatype verdict = Draw | Wins1 | Wins2

definition verdict_02 :: "card \<Rightarrow> card \<Rightarrow> nat \<Rightarrow> verdict" where
  "verdict_02 c1 c2 round_num =
     (if round_num \<ge> 20 then
        (if (hp c1 \<le> 0 \<and> hp c2 \<le> 0) \<or> hp c1 = hp c2 then Draw
         else if hp c1 > hp c2 then Wins1
         else Wins2)
      else if hp c1 \<le> 0 \<and> hp c2 \<le> 0 then Draw
      else if hp c1 \<le> 0 then Wins2
      else Wins1)"

definition verdict_01 :: "card \<Rightarrow> card \<Rightarrow> verdict" where
  "verdict_01 c1 c2 =
     (if hp c1 \<le> 0 \<and> hp c2 \<le> 0 then Draw
      else if hp c1 \<le> 0 then Wins2
      else Wins1)"

text \<open>
  The failures \<open>simulate_battle\<close> reports, each by a printed message and a return:
  fewer than two cards (version 0.2 only), an index out of range, and the
  \<open>ValueError\<close> of \<open>int(input(...))\<close>, caught by the \<open>except\<close> clause.
\<close>

datatype battle_error = TooFewCards | InvalidIndex | NotANumber

text \<open>
  What a completed duel prints: the names of the two cards, the round log and the
  verdict.
\<close>

record battle_report =
  br_name1 :: string
  br_name2 :: string
  br_log :: "round_record list"
  br_verdict :: verdict

text \<open>
  \<open>simulate_battle\<close> of version 0.2. The two lines the user types are arguments;
  \<open>parse\<close> stands for Python's \<open>int\<close> on a string, \<open>None\<close> where it raises
  \<open>ValueError\<close>. The result is the manager's state on return and the report or the
  failure.
\<close>

definition simulate_battle_02 ::
  "(string \<Rightarrow> int option) \<Rightarrow> table_02 \<Rightarrow> manager \<Rightarrow> string \<Rightarrow> string
     \<Rightarrow> manager \<times> (battle_error + battle_report)" where
  "simulate_battle_02 parse tbl m input1 input2 =
     (if length (cards m) < 2 then (m, Inl TooFewCards)
      else case parse input1 of None \<Rightarrow> (m, Inl NotANumber) | Some i1 \<Rightarrow>
        (case parse input2 of None \<Rightarrow> (m, Inl NotANumber) | Some i2 \<Rightarrow>
          (let index1 = i1 - 1; index2 = i2 - 1 in
           if index1 < 0 \<or> index1 \<ge> int (length (cards m)) \<or>
              index2 < 0 \<or> index2 \<ge> int (length (cards m))
           then (m, Inl InvalidIndex)
           else
             (let card1 = store m (cards m ! nat index1);
                  card2 = store m (cards m ! nat index2);
                  (c1, m) = new_object (Card_02 (name card1) (hp card1) (attack card1)
                                (defense card1) (element card1) (rarity card1)) m;
                  (c2, m) = new_object (Card_02 (name card2) (hp card2) (attack card2)
                                (defense card2) (element card2) (rarity card2)) m;
                  (s, round_num, out) = battle_loop_02 tbl c1 c2 (store m) 1 [];
                  m = m\<lparr>store := s\<rparr>
              in (m, Inr \<lparr>br_name1 = name card1, br_name2 = name card2, br_log = out,
                          br_verdict = verdict_02 (s c1) (s c2) round_num\<rparr>)))))"

text \<open>\<open>simulate_battle\<close> of version 0.1: the same without the check of the card count.\<close>

definition simulate_battle_01 ::
  "(string \<Rightarrow> int option) \<Rightarrow> table_01 \<Rightarrow> manager \<Rightarrow> string \<Rightarrow> string
     \<Rightarrow> manager \<times> (battle_error + battle_report)" where
  "simulate_battle_01 parse tbl m input1 input2 =
     (case parse input1 of None \<Rightarrow> (m, Inl NotANumber) | Some i1 \<Rightarrow>
        (case parse input2 of None \<Rightarrow> (m, Inl NotANumber) | Some i2 \<Rightarrow>
          (let index1 = i1 - 1; index2 = i2 - 1 in
           if index1 < 0 \<or> index1 \<ge> int (length (cards m)) \<or>
              index2 < 0 \<or> index2 \<ge> int (length (cards m))
           then (m, Inl InvalidIndex)
           else
             (let card1 = store m (cards m ! nat index1);
                  card2 = store m (cards m ! nat index2);
                  (c1, m) = new_object (Card_01 (name card1) (hp card1) (attack card1)
                                (defense card1) (element card1) (rarity card1)) m;
                  (c2, m) = new_object (Card_01 (name card2) (hp card2) (attack card2)
                                (defense card2) (element card2) (rarity card2)) m;
                  (s, round_num, out) = battle_loop_01 tbl c1 c2 (store m) 1 [];
                  m = m\<lparr>store := s\<rparr>
              in (m, Inr \<lparr>br_name1 = name card1, br_name2 = name card2, br_log = out,
                          br_verdict = verdict_01 (s c1) (s c2)\<rparr>)))))"

section \<open>Python floats\<close>

text \<open>
  Where the exact numbers above stop being the program. A Python float is a binary64
  double; \<open>round_to_double\<close> is the double nearest to a rational, ties to the even
  significand: the exponent is that of the leading bit, not below -1022, and the value
  is rounded to a multiple of 2 to the power exponent - 52. (Results of magnitude
  2 ^ 1024 and more, where Python raises \<open>OverflowError\<close> or gives \<open>inf\<close>, are not
  modelled.)
\<close>

definition round_half_even :: "rat \<Rightarrow> int" where
  "round_half_even y =
     (let f = \<lfloor>y\<rfloor>; r = y - of_int f
      in if r < 1 / 2 then f else if 1 / 2 < r then f + 1 else if even f then f else f + 1)"

definition double_exponent :: "rat \<Rightarrow> int" where
  "double_exponent x = max (- 1022) (bitlen \<lfloor>\<bar>x\<bar> * 2 ^ 1074\<rfloor> - 1075)"

definition round_to_double :: "rat \<Rightarrow> rat" where
  "round_to_double x =
     (let ulp = 2 powi (double_exponent x - 52)
      in of_int (round_half_even (x / ulp)) * ulp)"

text \<open>
  A Python number with its type: an \<open>int\<close>, of any size, or a float holding a value.
  Arithmetic on two ints is exact; with a float operand the int is converted to a
  double and the result is rounded. \<open>max(i, x)\<close> returns its first argument unless the
  second is greater.
\<close>

datatype pynum = PInt int | PFloat rat

fun py_value :: "pynum \<Rightarrow> rat" where
  "py_value (PInt i) = of_int i"
| "py_value (PFloat x) = x"

fun as_double :: "pynum \<Rightarrow> rat" where
  "as_double (PInt i) = round_to_double (of_int i)"
| "as_double (PFloat x) = x"

fun py_sub :: "pynum \<Rightarrow> pynum \<Rightarrow> pynum" where
  "py_sub (PInt a) (PInt b) = PInt (a - b)"
| "py_sub x y = PFloat (round_to_double (as_double x - as_double y))"

definition py_times :: "int \<Rightarrow> rat \<Rightarrow> pynum" where
  "py_times a c = PFloat (round_to_double (round_to_double (of_int a) * c))"

definition py_max :: "int \<Rightarrow> pynum \<Rightarrow> pynum" where
  "py_max i x = (if of_int i < py_value x then x else PInt i)"

text \<open>
  The round loop of version 0.1 on these numbers: \<open>calculate_attack\<close>, the damage
  expression, the four assignments to \<open>hp\<close> and the \<open>while\<close> on the two hp values.
  The two cards give the fields that the loop only reads; the round counter and the
  printing, which the guard does not read, are left out. The loop need not return.
\<close>

definition calculate_attack_py_01 :: "table_01 \<Rightarrow> card \<Rightarrow> card \<Rightarrow> pynum" where
  "calculate_attack_py_01 tbl attacker defender =
     (let attacker_element = element attacker;
          defender_element = element defender;
          relations = dict_get tbl attacker_element Map.empty
      in if py_eq_str (relations key_beats) defender_element
         then py_times (attack attacker) (3 / 2)
         else if py_eq_str (relations key_loses_to) defender_element
         then py_times (attack attacker) (1 / 2)
         else PInt (attack attacker))"

definition damage_py :: "pynum \<Rightarrow> int \<Rightarrow> pynum" where
  "damage_py attack_power dfn =
     (if py_value attack_power > of_int dfn then py_max 1 (py_sub attack_power (PInt dfn))
      else PInt 1)"

definition battle_round_py_01 :: "table_01 \<Rightarrow> card \<Rightarrow> card \<Rightarrow> pynum \<times> pynum \<Rightarrow> pynum \<times> pynum" where
  "battle_round_py_01 tbl c1 c2 hps =
     (case hps of (hp1, hp2) \<Rightarrow>
        let attack1 = calculate_attack_py_01 tbl c1 c2;
            attack2 = calculate_attack_py_01 tbl c2 c1;
            damage1 = damage_py attack1 (defense c2);
            damage2 = damage_py attack2 (defense c1);
            hp2 = py_sub hp2 damage1;
            hp1 = py_sub hp1 damage2;
            hp1 = py_max 0 hp1;
            hp2 = py_max 0 hp2
        in (hp1, hp2))"

partial_function (option) battle_loop_py_01 ::
  "table_01 \<Rightarrow> card \<Rightarrow> card \<Rightarrow> pynum \<times> pynum \<Rightarrow> (pynum \<times> pynum) option" where
  "battle_loop_py_01 tbl c1 c2 hps =
     (if py_value (fst hps) > 0 \<and> py_value (snd hps) > 0
      then battle_loop_py_01 tbl c1 c2 (battle_round_py_01 tbl c1 c2 hps)
      else Some hps)"

section \<open>modify_card (version 0.2)\<close>

text \<open>
  \<open>find_card_by_name\<close>: the index and the object of the first card with the name,
  \<open>(-1, None)\<close> when there is none.
\<close>

fun find_from :: "(addr \<Rightarrow> card) \<Rightarrow> nat \<Rightarrow> addr list \<Rightarrow> string \<Rightarrow> int \<times> addr option" where
  "find_from s i [] n = (- 1, None)"
| "find_from s i (a # as) n =
     (if name (s a) = n then (int i, Some a) else find_from s (Suc i) as n)"

definition find_card_by_name :: "manager \<Rightarrow> string \<Rightarrow> int \<times> addr option" where
  "find_card_by_name m n = find_from (store m) 0 (cards m) n"

text \<open>
  \<open>modify_card\<close> prints a message and returns when the name is unknown. The
  \<open>ValueError\<close> of \<open>int(...)\<close> on a non-empty, non-numeric line is not caught, here
  or in \<open>main\<close>: it ends the process, with the fields assigned so far already changed.
\<close>

datatype modify_error = NotFound | ValueError

text \<open>
  \<open>int(new) if new else old\<close>: the empty line keeps the old value, any other line
  is read by \<open>int\<close>, which may raise. \<open>emb\<close> embeds the \<open>int\<close> read into the
  field's type (the hp of the model is a number).
\<close>

definition int_or_keep :: "(int \<Rightarrow> 'a) \<Rightarrow> (string \<Rightarrow> int option) \<Rightarrow> string \<Rightarrow> 'a \<Rightarrow> 'a option" where
  "int_or_keep emb parse new old =
     (if new \<noteq> [] then map_option emb (parse new) else Some old)"

definition str_or_keep :: "string \<Rightarrow> string \<Rightarrow> string" where
  "str_or_keep new old = (if new \<noteq> [] then new else old)"

definition modify_card ::
  "(string \<Rightarrow> int option) \<Rightarrow> manager \<Rightarrow> string \<Rightarrow> string \<Rightarrow> string \<Rightarrow> string \<Rightarrow> string \<Rightarrow> string
     \<Rightarrow> manager \<times> modify_error option" where
  "modify_card parse m n new_hp new_attack new_defense new_element new_rarity =
     (case find_card_by_name m n of
        (index, None) \<Rightarrow> (m, Some NotFound)
      | (index, Some c) \<Rightarrow>
         (case int_or_keep of_int parse new_hp (hp (store m c)) of
            None \<Rightarrow> (m, Some ValueError)
          | Some h \<Rightarrow>
             (let m = m\<lparr>store := (store m)(c := (store m c)\<lparr>hp := h\<rparr>)\<rparr> in
              case int_or_keep (\<lambda>i. i) parse new_attack (attack (store m c)) of
                None \<Rightarrow> (m, Some ValueError)
              | Some a \<Rightarrow>
                 (let m = m\<lparr>store := (store m)(c := (store m c)\<lparr>attack := a\<rparr>)\<rparr> in
                  case int_or_keep (\<lambda>i. i) parse new_defense (defense (store m c)) of
                    None \<Rightarrow> (m, Some ValueError)
                  | Some d \<Rightarrow>
                     (let m = m\<lparr>store := (store m)(c := (store m c)\<lparr>defense := d\<rparr>)\<rparr>;
                          m = m\<lparr>store := (store m)(c := (store m c)
                                 \<lparr>element := str_or_keep new_element (element (store m c))\<rparr>)\<rparr>;
                          m = m\<lparr>store := (store m)(c := (store m c)
                                 \<lparr>rarity := str_or_keep new_rarity (rarity (store m c))\<rparr>)\<rparr>;
                          m = m\<lparr>store := (store m)(c := (store m c)
                                 \<lparr>score := hp (store m c) + 4 * of_int (attack (store m c))
                                           + 4 * of_int (defense (store m c))\<rparr>)\<rparr>
                      in (m, None))))))"

section \<open>The verdict as the specification words it\<close>

text \<open>
  The loop has ended due to the round cap, and not due to an hp reaching 0, when the
  round counter has passed 20 with both hp positive. Then the higher hp wins and equal
  hp is a draw. Otherwise both hp at or below 0 is a draw, and one of them at or below
  0 is a win for the other card.
\<close>

definition ended_by_cap :: "nat \<Rightarrow> number \<Rightarrow> number \<Rightarrow> bool" where
  "ended_by_cap round_num h1 h2 = (round_num > 20 \<and> h1 > 0 \<and> h2 > 0)"

definition hp_tiebreak :: "number \<Rightarrow> number \<Rightarrow> verdict" where
  "hp_tiebreak h1 h2 = (if h1 > h2 then Wins1 else if h2 > h1 then Wins2 else Draw)"

definition knockout_verdict :: "number \<Rightarrow> number \<Rightarrow> verdict" where
  "knockout_verdict h1 h2 =
     (if h1 \<le> 0 \<and> h2 \<le> 0 then Draw else if h1 \<le> 0 then Wins2 else Wins1)"

definition spec_verdict :: "nat \<Rightarrow> number \<Rightarrow> number \<Rightarrow> verdict" where
  "spec_verdict round_num h1 h2 =
     (if ended_by_cap round_num h1 h2 then hp_tiebreak h1 h2 else knockout_verdict h1 h2)"

section \<open>Example states\<close>

text \<open>
  A store with two cards at the addresses 0 and 1, and the collection holding them.
  \<open>parse_decimal\<close> is Python's \<open>int\<close> on the lines the examples type: it reads a
  non-empty string of decimal digits, and is \<open>None\<close> on a line with any other
  character.
\<close>

definition no_card :: card where
  "no_card = Card_02 [] 0 0 0 [] []"

definition store_of2 :: "card \<Rightarrow> card \<Rightarrow> addr \<Rightarrow> card" where
  "store_of2 a b = (\<lambda>_. no_card)(0 := a, 1 := b)"

definition collection_of2 :: "card \<Rightarrow> card \<Rightarrow> manager" where
  "collection_of2 a b = \<lparr>cards = [0, 1], store = store_of2 a b, next_addr = 2\<rparr>"

definition collection_of1 :: "card \<Rightarrow> manager" where
  "collection_of1 a = \<lparr>cards = [0], store = (\<lambda>_. no_card)(0 := a), next_addr = 1\<rparr>"

fun parse_digits :: "nat \<Rightarrow> string \<Rightarrow> nat option" where
  "parse_digits acc [] = Some acc"
| "parse_digits acc (c # cs) =
     (let d = (of_char c :: nat) in
      if 48 \<le> d \<and> d \<le> 57 then parse_digits (10 * acc + (d - 48)) cs else None)"

definition parse_decimal :: "string \<Rightarrow> int option" where
  "parse_decimal l = (if l = [] then None else map_option int (parse_digits 0 l))"

section \<open>The multiplier lookup\<close>

lemmas el_defs =
  el_fire_def el_water_def el_wood_def el_electric_def el_ice_def el_earth_def
  el_rock_def el_insect_def el_beast_def el_dragon_def el_mystery_def el_light_def
  el_dark_def key_beats_def key_loses_to_def

lemma calculate_attack_02_spec:
  "calculate_attack_02 tbl a d =
     of_int (attack a) *
       spec_multiplier (beats_02 tbl (element a)) (loses_to_02 tbl (element a)) (element d)"
  by (simp add: calculate_attack_02_def spec_multiplier_def beats_02_def loses_to_02_def
      dict_get_def Let_def split: option.splits)

lemma py_eq_str_elems: "py_eq_str v s \<longleftrightarrow> s \<in> pyval_elems v"
  by (cases v rule: pyval_elems.cases) (auto simp: py_eq_str_def)

lemma calculate_attack_01_spec:
  "calculate_attack_01 tbl a d =
     of_int (attack a) *
       spec_multiplier (beats_01 tbl (element a)) (loses_to_01 tbl (element a)) (element d)"
  by (simp add: calculate_attack_01_def spec_multiplier_def beats_01_def loses_to_01_def
      dict_get_def py_eq_str_elems Let_def split: option.splits)

text \<open>
  Claim C1. In both versions \<open>calculate_attack\<close> depends only on the attacker's base
  attack, the two elements and the table: the result is the base attack times 1.5 when
  the defender's element is in the attacker's beats set, else times 0.5 when it is in
  the attacker's loses-to set, else times 1.0. In particular the multiplier is 1.0 when
  the attacker's element has no entry in the table and when the defender's element is
  in neither set, and it is 1.5 when the defender's element is in both sets.
\<close>

theorem calculate_attack_multiplier:
  fixes tbl :: table_02 and tbl' :: table_01
  shows
  "calculate_attack_02 tbl a d =
     of_int (attack a) *
       spec_multiplier (beats_02 tbl (element a)) (loses_to_02 tbl (element a)) (element d) \<and>
   calculate_attack_01 tbl' a d =
     of_int (attack a) *
       spec_multiplier (beats_01 tbl' (element a)) (loses_to_01 tbl' (element a)) (element d) \<and>
   (tbl (element a) = None \<longrightarrow> calculate_attack_02 tbl a d = of_int (attack a) * 1) \<and>
   (tbl' (element a) = None \<longrightarrow> calculate_attack_01 tbl' a d = of_int (attack a) * 1) \<and>
   (element d \<notin> beats_02 tbl (element a) \<union> loses_to_02 tbl (element a) \<longrightarrow>
      calculate_attack_02 tbl a d = of_int (attack a) * 1) \<and>
   (element d \<notin> beats_01 tbl' (element a) \<union> loses_to_01 tbl' (element a) \<longrightarrow>
      calculate_attack_01 tbl' a d = of_int (attack a) * 1) \<and>
   (element d \<in> beats_02 tbl (element a) \<inter> loses_to_02 tbl (element a) \<longrightarrow>
      calculate_attack_02 tbl a d = of_int (attack a) * (3 / 2)) \<and>
   (element d \<in> beats_01 tbl' (element a) \<inter> loses_to_01 tbl' (element a) \<longrightarrow>
      calculate_attack_01 tbl' a d = of_int (attack a) * (3 / 2))"
proof -
  have none2: "tbl (element a) = None \<Longrightarrow> beats_02 tbl (element a) = {} \<and> loses_to_02 tbl (element a) = {}"
    by (simp add: beats_02_def loses_to_02_def)
  have none1: "tbl' (element a) = None \<Longrightarrow> beats_01 tbl' (element a) = {} \<and> loses_to_01 tbl' (element a) = {}"
    by (simp add: beats_01_def loses_to_01_def)
  show ?thesis
    using none1 none2
    by (simp add: calculate_attack_02_spec calculate_attack_01_spec spec_multiplier_def)
qed

text \<open>
  The theorem at concrete cards. In the table of version 0.2 a dragon both beats and
  loses to a dragon, and the attack of 10 becomes 15; an attacker of an element the
  table does not know, and a defender the attacker's entry does not list, leave it
  at 10. The same for version 0.1, where the doubly listed element needs a table of
  its own.
\<close>

theorem calculate_attack_multiplier_witness:
  "(el_dragon \<in> beats_02 element_relations_02 el_dragon \<inter> loses_to_02 element_relations_02 el_dragon \<and>
    calculate_attack_02 element_relations_02
      (Card_02 ''a'' 50 10 5 el_dragon ''r'') (Card_02 ''b'' 40 8 3 el_dragon ''r'') = 15) \<and>
   (element_relations_02 ''steel'' = None \<and>
    calculate_attack_02 element_relations_02
      (Card_02 ''a'' 50 10 5 ''steel'' ''r'') (Card_02 ''b'' 40 8 3 el_fire ''r'') = 10) \<and>
   (el_dragon \<notin> beats_02 element_relations_02 el_fire \<union> loses_to_02 element_relations_02 el_fire \<and>
    calculate_attack_02 element_relations_02
      (Card_02 ''a'' 50 10 5 el_fire ''r'') (Card_02 ''b'' 40 8 3 el_dragon ''r'') = 10) \<and>
   (element_relations_01 el_dragon = None \<and>
    calculate_attack_01 element_relations_01
      (Card_01 ''a'' 50 10 5 el_dragon ''r'') (Card_01 ''b'' 40 8 3 el_fire ''r'') = 10) \<and>
   (el_earth \<notin> beats_01 element_relations_01 el_fire \<union> loses_to_01 element_relations_01 el_fire \<and>
    calculate_attack_01 element_relations_01
      (Card_01 ''a'' 50 10 5 el_fire ''r'') (Card_01 ''b'' 40 8 3 el_earth ''r'') = 10) \<and>
   (el_fire \<in> beats_01 [el_ice \<mapsto> [key_beats \<mapsto> PStr el_fire, key_loses_to \<mapsto> PStr el_fire]] el_ice
        \<inter> loses_to_01 [el_ice \<mapsto> [key_beats \<mapsto> PStr el_fire, key_loses_to \<mapsto> PStr el_fire]] el_ice \<and>
    calculate_attack_01 [el_ice \<mapsto> [key_beats \<mapsto> PStr el_fire, key_loses_to \<mapsto> PStr el_fire]]
      (Card_01 ''a'' 50 10 5 el_ice ''r'') (Card_01 ''b'' 40 8 3 el_fire ''r'') = 15)"
proof -
  have dragon: "el_dragon \<in> beats_02 element_relations_02 el_dragon \<inter> loses_to_02 element_relations_02 el_dragon"
    by (simp add: beats_02_def loses_to_02_def element_relations_02_def el_defs)
  have steel: "element_relations_02 ''steel'' = None"
    by (simp add: element_relations_02_def el_defs)
  have fire: "el_dragon \<notin> beats_02 element_relations_02 el_fire \<union> loses_to_02 element_relations_02 el_fire"
    by (simp add: beats_02_def loses_to_02_def element_relations_02_def el_defs)
  have dragon1: "element_relations_01 el_dragon = None"
    by (simp add: element_relations_01_def el_defs)
  have fire1: "el_earth \<notin> beats_01 element_relations_01 el_fire \<union> loses_to_01 element_relations_01 el_fire"
    by (simp add: beats_01_def loses_to_01_def element_relations_01_def el_defs)
  have ice1: "el_fire \<in> beats_01 [el_ice \<mapsto> [key_beats \<mapsto> PStr el_fire, key_loses_to \<mapsto> PStr el_fire]] el_ice
        \<inter> loses_to_01 [el_ice \<mapsto> [key_beats \<mapsto> PStr el_fire, key_loses_to \<mapsto> PStr el_fire]] el_ice"
    by (simp add: beats_01_def loses_to_01_def el_defs)
  show ?thesis
    using dragon steel fire dragon1 fire1 ice1
      calculate_attack_multiplier [of element_relations_02
        "Card_02 ''a'' 50 10 5 el_dragon ''r''" "Card_02 ''b'' 40 8 3 el_dragon ''r''" element_relations_01]
      calculate_attack_multiplier [of element_relations_02
        "Card_02 ''a'' 50 10 5 ''steel'' ''r''" "Card_02 ''b'' 40 8 3 el_fire ''r''" element_relations_01]
      calculate_attack_multiplier [of element_relations_02
        "Card_02 ''a'' 50 10 5 el_fire ''r''" "Card_02 ''b'' 40 8 3 el_dragon ''r''" element_relations_01]
      calculate_attack_multiplier [of element_relations_02
        "Card_01 ''a'' 50 10 5 el_dragon ''r''" "Card_01 ''b'' 40 8 3 el_fire ''r''" element_relations_01]
      calculate_attack_multiplier [of element_relations_02
        "Card_01 ''a'' 50 10 5 el_fire ''r''" "Card_01 ''b'' 40 8 3 el_earth ''r''" element_relations_01]
      calculate_attack_multiplier [of element_relations_02
        "Card_01 ''a'' 50 10 5 el_ice ''r''" "Card_01 ''b'' 40 8 3 el_fire ''r''"
        "[el_ice \<mapsto> [key_beats \<mapsto> PStr el_fire, key_loses_to \<mapsto> PStr el_fire]]"]
    by (simp add: Card_01_def Card_02_def)
qed

section \<open>The score of a card\<close>

text \<open>
  Claim C9. Construction computes the score as hp + 4 * attack + k * defense, with
  k = 3 in version 0.1 and k = 4 in version 0.2; a card with hp 100, attack 20 and
  defense 10 has score 220 under k = 4.
\<close>

theorem card_score_formula:
  "score (Card_01 n h a d e r) = h + 4 * of_int a + 3 * of_int d \<and>
   score (Card_02 n h a d e r) = h + 4 * of_int a + 4 * of_int d \<and>
   score (Card_02 n 100 20 10 e r) = 220"
  by (simp add: Card_01_def Card_02_def)

section \<open>Rounds and loops\<close>

declare battle_loop_02.simps [simp del] battle_loop_01.simps [simp del]

lemma damage_max: "damage p d = max 1 (p - of_int d)"
  by (simp add: damage_def max_def)

lemma damage_ge_1: "1 \<le> damage p d"
  by (simp add: damage_max)

lemma battle_round_damages:
  "snd (battle_round calc c1 c2 s) =
     (damage (calc (s c1) (s c2)) (defense (s c2)), damage (calc (s c2) (s c1)) (defense (s c1)))"
  by (simp add: battle_round_def Let_def)

lemma battle_round_store:
  assumes "c1 \<noteq> c2"
  shows "fst (battle_round calc c1 c2 s) =
     s(c1 := (s c1)\<lparr>hp := max 0 (hp (s c1) - damage (calc (s c2) (s c1)) (defense (s c1)))\<rparr>,
       c2 := (s c2)\<lparr>hp := max 0 (hp (s c2) - damage (calc (s c1) (s c2)) (defense (s c2)))\<rparr>)"
  using assms by (auto simp: battle_round_def Let_def fun_eq_iff)

lemma battle_round_hp_nonneg:
  "0 \<le> hp (fst (battle_round calc c1 c2 s) c1) \<and> 0 \<le> hp (fst (battle_round calc c1 c2 s) c2)"
  by (cases "c1 = c2") (simp_all add: battle_round_def Let_def)

lemma battle_round_frame:
  "a \<noteq> c1 \<Longrightarrow> a \<noteq> c2 \<Longrightarrow> fst (battle_round calc c1 c2 s) a = s a"
  by (simp add: battle_round_def Let_def)

lemma battle_round_only_hp:
  "fst (battle_round calc c1 c2 s) a = (s a)\<lparr>hp := hp (fst (battle_round calc c1 c2 s) a)\<rparr>"
  by (cases "c1 = c2") (simp_all add: battle_round_def Let_def)

lemma battle_round_hp1_decreases:
  assumes "0 < hp (s c1)"
  shows "hp (fst (battle_round calc c1 c2 s) c1) \<le> max 0 (hp (s c1) - 1)"
proof (cases "c1 = c2")
  case True
  then show ?thesis
    using assms damage_ge_1 [of "calc (s c1) (s c1)" "defense (s c1)"]
    by (simp add: battle_round_def Let_def max_def)
next
  case False
  then show ?thesis
    using assms damage_ge_1 [of "calc (s c2) (s c1)" "defense (s c1)"]
    by (simp add: battle_round_def Let_def max_def)
qed

text \<open>One unfolding of each loop, with the round's result named by projections.\<close>

lemma battle_loop_02_step:
  assumes "0 < hp (s c1)" "0 < hp (s c2)" "round_num \<le> 20"
  shows "battle_loop_02 tbl c1 c2 s round_num out =
     battle_loop_02 tbl c1 c2 (fst (battle_round (calculate_attack_02 tbl) c1 c2 s)) (round_num + 1)
       (out @ [\<lparr>rr_round = round_num,
                 rr_damage1 = fst (snd (battle_round (calculate_attack_02 tbl) c1 c2 s)),
                 rr_damage2 = snd (snd (battle_round (calculate_attack_02 tbl) c1 c2 s)),
                 rr_hp1 = hp (fst (battle_round (calculate_attack_02 tbl) c1 c2 s) c1),
                 rr_hp2 = hp (fst (battle_round (calculate_attack_02 tbl) c1 c2 s) c2)\<rparr>])"
  using assms by (subst battle_loop_02.simps) (simp add: split_beta)

lemma battle_loop_02_exit:
  assumes "\<not> (0 < hp (s c1) \<and> 0 < hp (s c2) \<and> round_num \<le> 20)"
  shows "battle_loop_02 tbl c1 c2 s round_num out = (s, round_num, out)"
  using assms by (subst battle_loop_02.simps) auto

lemma battle_loop_01_step:
  assumes "0 < hp (s c1)" "0 < hp (s c2)"
  shows "battle_loop_01 tbl c1 c2 s round_num out =
     battle_loop_01 tbl c1 c2 (fst (battle_round (calculate_attack_01 tbl) c1 c2 s)) (round_num + 1)
       (out @ [\<lparr>rr_round = round_num,
                 rr_damage1 = fst (snd (battle_round (calculate_attack_01 tbl) c1 c2 s)),
                 rr_damage2 = snd (snd (battle_round (calculate_attack_01 tbl) c1 c2 s)),
                 rr_hp1 = hp (fst (battle_round (calculate_attack_01 tbl) c1 c2 s) c1),
                 rr_hp2 = hp (fst (battle_round (calculate_attack_01 tbl) c1 c2 s) c2)\<rparr>])"
  using assms by (subst battle_loop_01.simps) (simp add: split_beta)

lemma battle_loop_01_exit:
  assumes "\<not> (0 < hp (s c1) \<and> 0 < hp (s c2))"
  shows "battle_loop_01 tbl c1 c2 s round_num out = (s, round_num, out)"
  using assms by (subst battle_loop_01.simps) auto

text \<open>Induction rules over the rounds, in terms of the projections.\<close>

lemma battle_loop_02_induct [consumes 0, case_names exit step]:
  assumes exit: "\<And>s round_num out.
      \<not> (0 < hp (s c1) \<and> 0 < hp (s c2) \<and> round_num \<le> 20) \<Longrightarrow> P s round_num out"
    and step: "\<And>s round_num out r.
      0 < hp (s c1) \<Longrightarrow> 0 < hp (s c2) \<Longrightarrow> round_num \<le> 20 \<Longrightarrow>
      r = \<lparr>rr_round = round_num,
            rr_damage1 = fst (snd (battle_round (calculate_attack_02 tbl) c1 c2 s)),
            rr_damage2 = snd (snd (battle_round (calculate_attack_02 tbl) c1 c2 s)),
            rr_hp1 = hp (fst (battle_round (calculate_attack_02 tbl) c1 c2 s) c1),
            rr_hp2 = hp (fst (battle_round (calculate_attack_02 tbl) c1 c2 s) c2)\<rparr> \<Longrightarrow>
      P (fst (battle_round (calculate_attack_02 tbl) c1 c2 s)) (round_num + 1) (out @ [r]) \<Longrightarrow>
      P s round_num out"
  shows "P s round_num out"
proof -
  have "t = tbl \<Longrightarrow> a = c1 \<Longrightarrow> b = c2 \<Longrightarrow> P s round_num out" for t a b
  proof (induction t a b s round_num out rule: battle_loop_02.induct)
    case (1 t a b s round_num out)
    note eqs = "1.prems"
    show ?case
    proof (cases "0 < hp (s c1) \<and> 0 < hp (s c2) \<and> round_num \<le> 20")
      case False
      then show ?thesis by (rule exit)
    next
      case True
      obtain s' d1 d2 where r: "battle_round (calculate_attack_02 tbl) c1 c2 s = (s', d1, d2)"
        by (cases "battle_round (calculate_attack_02 tbl) c1 c2 s") auto
      have cond: "0 < hp (s a) \<and> 0 < hp (s b) \<and> round_num \<le> 20"
        using True eqs by simp
      have r': "(s', d1, d2) = battle_round (calculate_attack_02 t) a b s"
        using r eqs by simp
      have "P s' (round_num + 1)
          (out @ [\<lparr>rr_round = round_num, rr_damage1 = d1, rr_damage2 = d2,
                    rr_hp1 = hp (s' a), rr_hp2 = hp (s' b)\<rparr>])"
        using "1.IH" [OF cond r' refl eqs] .
      then show ?thesis
        using True r eqs step [where s = s and round_num = round_num and out = out] by simp
    qed
  qed
  then show ?thesis by simp
qed

lemma battle_loop_01_induct [consumes 0, case_names exit step]:
  assumes exit: "\<And>s round_num out.
      \<not> (0 < hp (s c1) \<and> 0 < hp (s c2)) \<Longrightarrow> P s round_num out"
    and step: "\<And>s round_num out r.
      0 < hp (s c1) \<Longrightarrow> 0 < hp (s c2) \<Longrightarrow> r = \<lparr>rr_round = round_num,
            rr_damage1 = fst (snd (battle_round (calculate_attack_01 tbl) c1 c2 s)),
            rr_damage2 = snd (snd (battle_round (calculate_attack_01 tbl) c1 c2 s)),
            rr_hp1 = hp (fst (battle_round (calculate_attack_01 tbl) c1 c2 s) c1),
            rr_hp2 = hp (fst (battle_round (calculate_attack_01 tbl) c1 c2 s) c2)\<rparr> \<Longrightarrow>
      P (fst (battle_round (calculate_attack_01 tbl) c1 c2 s)) (round_num + 1) (out @ [r]) \<Longrightarrow>
      P s round_num out"
  shows "P s round_num out"
proof -
  have "t = tbl \<Longrightarrow> a = c1 \<Longrightarrow> b = c2 \<Longrightarrow> P s round_num out" for t a b
  proof (induction t a b s round_num out rule: battle_loop_01.induct)
    case (1 t a b s round_num out)
    note eqs = "1.prems"
    show ?case
    proof (cases "0 < hp (s c1) \<and> 0 < hp (s c2)")
      case False
      then show ?thesis by (rule exit)
    next
      case True
      obtain s' d1 d2 where r: "battle_round (calculate_attack_01 tbl) c1 c2 s = (s', d1, d2)"
        by (cases "battle_round (calculate_attack_01 tbl) c1 c2 s") auto
      have cond: "0 < hp (s a) \<and> 0 < hp (s b)"
        using True eqs by simp
      have r': "(s', d1, d2) = battle_round (calculate_attack_01 t) a b s"
        using r eqs by simp
      have "P s' (round_num + 1)
          (out @ [\<lparr>rr_round = round_num, rr_damage1 = d1, rr_damage2 = d2,
                    rr_hp1 = hp (s' a), rr_hp2 = hp (s' b)\<rparr>])"
        using "1.IH" [OF cond r' refl eqs] .
      then show ?thesis
        using True r eqs step [where s = s and round_num = round_num and out = out] by simp
    qed
  qed
  then show ?thesis by simp
qed

section \<open>The round cap and the clamp\<close>

lemma battle_loop_02_counts:
  "fst (snd (battle_loop_02 tbl c1 c2 s round_num out)) \<ge> round_num \<and>
   length (snd (snd (battle_loop_02 tbl c1 c2 s round_num out))) =
     length out + (fst (snd (battle_loop_02 tbl c1 c2 s round_num out)) - round_num) \<and>
   (round_num \<le> 21 \<longrightarrow> fst (snd (battle_loop_02 tbl c1 c2 s round_num out)) \<le> 21)"
proof (induction s round_num out rule: battle_loop_02_induct [where tbl = tbl and ?c1.0 = c1 and ?c2.0 = c2])
  case (exit s round_num out)
  then show ?case by (simp add: battle_loop_02_exit)
next
  case (step s round_num out r)
  have "battle_loop_02 tbl c1 c2 s round_num out =
      battle_loop_02 tbl c1 c2 (fst (battle_round (calculate_attack_02 tbl) c1 c2 s))
        (round_num + 1) (out @ [r])"
    using step(1-4) by (simp add: battle_loop_02_step)
  with step.IH step(3) show ?case
    by (simp del: One_nat_def) arith
qed

lemma battle_loop_02_log_nonneg:
  "list_all (\<lambda>r. 0 \<le> rr_hp1 r \<and> 0 \<le> rr_hp2 r) out \<Longrightarrow>
   list_all (\<lambda>r. 0 \<le> rr_hp1 r \<and> 0 \<le> rr_hp2 r)
     (snd (snd (battle_loop_02 tbl c1 c2 s round_num out)))"
proof (induction s round_num out rule: battle_loop_02_induct [where tbl = tbl and ?c1.0 = c1 and ?c2.0 = c2])
  case (exit s round_num out)
  then show ?case by (simp add: battle_loop_02_exit)
next
  case (step s round_num out r)
  then show ?case
    using battle_round_hp_nonneg [of "calculate_attack_02 tbl" c1 c2 s]
    by (simp add: battle_loop_02_step)
qed

lemma battle_loop_01_log_nonneg:
  "list_all (\<lambda>r. 0 \<le> rr_hp1 r \<and> 0 \<le> rr_hp2 r) out \<Longrightarrow>
   list_all (\<lambda>r. 0 \<le> rr_hp1 r \<and> 0 \<le> rr_hp2 r)
     (snd (snd (battle_loop_01 tbl c1 c2 s round_num out)))"
proof (induction s round_num out rule: battle_loop_01_induct [where tbl = tbl and ?c1.0 = c1 and ?c2.0 = c2])
  case (exit s round_num out)
  then show ?case by (simp add: battle_loop_01_exit)
next
  case (step s round_num out r)
  then show ?case
    using battle_round_hp_nonneg [of "calculate_attack_01 tbl" c1 c2 s]
    by (simp add: battle_loop_01_step)
qed

text \<open>
  The loop of version 0.2, started at round 1, runs at most 20 rounds and its counter
  ends one above their number: the bound reads the counter alone. Every hp value a
  round prints, in either version, is at least 0, being the result of \<open>max(0, ...)\<close>.
\<close>

lemma battle_loop_02_bounded_hp_clamped:
  "length (snd (snd (battle_loop_02 tbl c1 c2 s 1 []))) \<le> 20 \<and>
   fst (snd (battle_loop_02 tbl c1 c2 s 1 [])) =
     length (snd (snd (battle_loop_02 tbl c1 c2 s 1 []))) + 1 \<and>
   list_all (\<lambda>r. 0 \<le> rr_hp1 r \<and> 0 \<le> rr_hp2 r) (snd (snd (battle_loop_02 tbl c1 c2 s 1 []))) \<and>
   list_all (\<lambda>r. 0 \<le> rr_hp1 r \<and> 0 \<le> rr_hp2 r) (snd (snd (battle_loop_01 tbl' c1 c2 s 1 [])))"
proof -
  have a: "length (snd (snd (battle_loop_02 tbl c1 c2 s 1 []))) \<le> 20 \<and>
      fst (snd (battle_loop_02 tbl c1 c2 s 1 [])) =
        length (snd (snd (battle_loop_02 tbl c1 c2 s 1 []))) + 1"
    using battle_loop_02_counts [of 1 tbl c1 c2 s "[]"] by simp arith
  have b: "list_all (\<lambda>r. 0 \<le> rr_hp1 r \<and> 0 \<le> rr_hp2 r) (snd (snd (battle_loop_02 tbl c1 c2 s 1 [])))"
    by (rule battle_loop_02_log_nonneg) simp
  have d: "list_all (\<lambda>r. 0 \<le> rr_hp1 r \<and> 0 \<le> rr_hp2 r) (snd (snd (battle_loop_01 tbl' c1 c2 s 1 [])))"
    by (rule battle_loop_01_log_nonneg) simp
  from a b d show ?thesis by blast
qed

section \<open>The verdict\<close>

lemma battle_loop_02_final:
  assumes "2 \<le> round_num \<longrightarrow> 0 \<le> hp (s c1) \<and> 0 \<le> hp (s c2)"
  shows "(2 \<le> fst (snd (battle_loop_02 tbl c1 c2 s round_num out)) \<longrightarrow>
            0 \<le> hp (fst (battle_loop_02 tbl c1 c2 s round_num out) c1) \<and>
            0 \<le> hp (fst (battle_loop_02 tbl c1 c2 s round_num out) c2)) \<and>
         \<not> (0 < hp (fst (battle_loop_02 tbl c1 c2 s round_num out) c1) \<and>
            0 < hp (fst (battle_loop_02 tbl c1 c2 s round_num out) c2) \<and>
            fst (snd (battle_loop_02 tbl c1 c2 s round_num out)) \<le> 20)"
  using assms
proof (induction s round_num out rule: battle_loop_02_induct [where tbl = tbl and ?c1.0 = c1 and ?c2.0 = c2])
  case (exit s round_num out)
  then show ?case by (simp add: battle_loop_02_exit)
next
  case (step s round_num out r)
  have eq: "battle_loop_02 tbl c1 c2 s round_num out =
      battle_loop_02 tbl c1 c2 (fst (battle_round (calculate_attack_02 tbl) c1 c2 s))
        (round_num + 1) (out @ [r])"
    using step(1-4) by (simp add: battle_loop_02_step)
  show ?case
    unfolding eq
    by (rule step.IH) (simp add: battle_round_hp_nonneg)
qed

lemma battle_loop_01_final:
  "\<not> (0 < hp (fst (battle_loop_01 tbl c1 c2 s round_num out) c1) \<and>
      0 < hp (fst (battle_loop_01 tbl c1 c2 s round_num out) c2))"
proof (induction s round_num out rule: battle_loop_01_induct [where tbl = tbl and ?c1.0 = c1 and ?c2.0 = c2])
  case (exit s round_num out)
  then show ?case by (simp add: battle_loop_01_exit)
next
  case (step s round_num out r)
  have eq: "battle_loop_01 tbl c1 c2 s round_num out =
      battle_loop_01 tbl c1 c2 (fst (battle_round (calculate_attack_01 tbl) c1 c2 s))
        (round_num + 1) (out @ [r])"
    using step(1-3) by (simp add: battle_loop_01_step)
  show ?case
    unfolding eq by (rule step.IH)
qed

lemma verdict_02_spec:
  assumes "2 \<le> round_num \<longrightarrow> 0 \<le> hp a \<and> 0 \<le> hp b"
    and "\<not> (0 < hp a \<and> 0 < hp b \<and> round_num \<le> 20)"
  shows "verdict_02 a b round_num = spec_verdict round_num (hp a) (hp b)"
  using assms
  by (auto simp: verdict_02_def spec_verdict_def ended_by_cap_def hp_tiebreak_def
      knockout_verdict_def)

text \<open>
  Claim C2. At the exit of the loop started at round 1, the verdict is the one the
  priority rule gives: the tie-break by hp when the loop ended due to the round cap
  with both hp positive, and otherwise, with at least one hp at or below 0, a draw
  when both are and a win for the other card when one is. Version 0.2 enters its
  tie-break branch from round counter 20 on, which also covers a knockout in round 19
  or 20; there the hp are clamped and one of them is 0, so the branch announces what
  the knockout rule announces. Version 0.1 has no cap and its loop never ends with both
  hp positive.
\<close>

theorem verdict_follows_priority_rule:
  "(case battle_loop_02 tbl c1 c2 s 1 [] of (s', round_num, out) \<Rightarrow>
      verdict_02 (s' c1) (s' c2) round_num = spec_verdict round_num (hp (s' c1)) (hp (s' c2)) \<and>
      (ended_by_cap round_num (hp (s' c1)) (hp (s' c2)) \<or> hp (s' c1) \<le> 0 \<or> hp (s' c2) \<le> 0)) \<and>
   (case battle_loop_01 tbl' c1 c2 s 1 [] of (s', round_num, out) \<Rightarrow>
      verdict_01 (s' c1) (s' c2) = spec_verdict round_num (hp (s' c1)) (hp (s' c2)) \<and>
      \<not> ended_by_cap round_num (hp (s' c1)) (hp (s' c2)) \<and>
      (hp (s' c1) \<le> 0 \<or> hp (s' c2) \<le> 0))"
proof -
  have f2: "(2 \<le> fst (snd (battle_loop_02 tbl c1 c2 s 1 [])) \<longrightarrow>
            0 \<le> hp (fst (battle_loop_02 tbl c1 c2 s 1 []) c1) \<and>
            0 \<le> hp (fst (battle_loop_02 tbl c1 c2 s 1 []) c2)) \<and>
         \<not> (0 < hp (fst (battle_loop_02 tbl c1 c2 s 1 []) c1) \<and>
            0 < hp (fst (battle_loop_02 tbl c1 c2 s 1 []) c2) \<and>
            fst (snd (battle_loop_02 tbl c1 c2 s 1 [])) \<le> 20)"
    by (rule battle_loop_02_final) simp
  have v2: "verdict_02 (fst (battle_loop_02 tbl c1 c2 s 1 []) c1) (fst (battle_loop_02 tbl c1 c2 s 1 []) c2)
        (fst (snd (battle_loop_02 tbl c1 c2 s 1 []))) =
      spec_verdict (fst (snd (battle_loop_02 tbl c1 c2 s 1 [])))
        (hp (fst (battle_loop_02 tbl c1 c2 s 1 []) c1)) (hp (fst (battle_loop_02 tbl c1 c2 s 1 []) c2))"
    using f2 by (intro verdict_02_spec) blast+
  have e2: "ended_by_cap (fst (snd (battle_loop_02 tbl c1 c2 s 1 [])))
        (hp (fst (battle_loop_02 tbl c1 c2 s 1 []) c1)) (hp (fst (battle_loop_02 tbl c1 c2 s 1 []) c2)) \<or>
      hp (fst (battle_loop_02 tbl c1 c2 s 1 []) c1) \<le> 0 \<or>
      hp (fst (battle_loop_02 tbl c1 c2 s 1 []) c2) \<le> 0"
    using f2 by (auto simp: ended_by_cap_def)
  have f1: "hp (fst (battle_loop_01 tbl' c1 c2 s 1 []) c1) \<le> 0 \<or>
      hp (fst (battle_loop_01 tbl' c1 c2 s 1 []) c2) \<le> 0"
    using battle_loop_01_final [of tbl' c1 c2 s 1 "[]"] by auto
  have v1: "verdict_01 a b = knockout_verdict (hp a) (hp b)" for a b
    by (simp add: verdict_01_def knockout_verdict_def)
  have n1: "\<not> ended_by_cap n (hp (fst (battle_loop_01 tbl' c1 c2 s 1 []) c1))
      (hp (fst (battle_loop_01 tbl' c1 c2 s 1 []) c2))" for n
    using f1 by (auto simp: ended_by_cap_def)
  show ?thesis
    using v2 e2 f1 v1 n1 by (simp add: split_beta spec_verdict_def)
qed

text \<open>
  The tie-break is reached: two cards that take 1 from each other per round are both
  standing after round 20, and the one with more hp left wins.
\<close>

lemma verdict_at_cap_example:
  "(case battle_loop_02 element_relations_02 0 1
     (store_of2 (Card_02 ''a'' 100 1 0 el_earth ''r'') (Card_02 ''b'' 90 1 0 el_earth ''r'')) 1 [] of
     (s', round_num, out) \<Rightarrow> hp (s' 0) = 80 \<and> hp (s' 1) = 70 \<and> round_num = 21 \<and>
        ended_by_cap round_num (hp (s' 0)) (hp (s' 1)) \<and>
        verdict_02 (s' 0) (s' 1) round_num = Wins1)"
  by (simp add: battle_loop_02.simps battle_round_def calculate_attack_02_def dict_get_def
      element_relations_02_def el_defs damage_def store_of2_def Card_02_def Let_def
      verdict_02_def ended_by_cap_def)

section \<open>Simultaneity\<close>

text \<open>
  Claim C3. With two distinct snapshots, a round computes both damages from the store
  before the round and applies both: each hp becomes its old value less the other
  card's damage, clamped at 0. So when, in a round that the loop runs, each damage is
  at least the opponent's hp, both hp are 0 after it, the loop ends after this round
  and the verdict is a draw, in both versions. The state, the round counter and the
  log are arbitrary: the round may be any round of a duel.
\<close>

theorem simultaneous_round_lethal_draw:
  assumes "c1 \<noteq> c2" and "0 < hp (s c1)" and "0 < hp (s c2)"
  shows
  "fst (battle_round calc c1 c2 s) =
     s(c1 := (s c1)\<lparr>hp := max 0 (hp (s c1) - damage (calc (s c2) (s c1)) (defense (s c1)))\<rparr>,
       c2 := (s c2)\<lparr>hp := max 0 (hp (s c2) - damage (calc (s c1) (s c2)) (defense (s c2)))\<rparr>) \<and>
   (round_num \<le> 20 \<and>
    hp (s c2) \<le> damage (calculate_attack_02 tbl (s c1) (s c2)) (defense (s c2)) \<and>
    hp (s c1) \<le> damage (calculate_attack_02 tbl (s c2) (s c1)) (defense (s c1)) \<longrightarrow>
      (case battle_loop_02 tbl c1 c2 s round_num out of (s', round_num', out') \<Rightarrow>
         hp (s' c1) = 0 \<and> hp (s' c2) = 0 \<and> round_num' = round_num + 1 \<and>
         length out' = length out + 1 \<and> verdict_02 (s' c1) (s' c2) round_num' = Draw)) \<and>
   (hp (s c2) \<le> damage (calculate_attack_01 tbl' (s c1) (s c2)) (defense (s c2)) \<and>
    hp (s c1) \<le> damage (calculate_attack_01 tbl' (s c2) (s c1)) (defense (s c1)) \<longrightarrow>
      (case battle_loop_01 tbl' c1 c2 s round_num out of (s', round_num', out') \<Rightarrow>
         hp (s' c1) = 0 \<and> hp (s' c2) = 0 \<and> round_num' = round_num + 1 \<and>
         length out' = length out + 1 \<and> verdict_01 (s' c1) (s' c2) = Draw))"
proof (intro conjI impI)
  show "fst (battle_round calc c1 c2 s) =
     s(c1 := (s c1)\<lparr>hp := max 0 (hp (s c1) - damage (calc (s c2) (s c1)) (defense (s c1)))\<rparr>,
       c2 := (s c2)\<lparr>hp := max 0 (hp (s c2) - damage (calc (s c1) (s c2)) (defense (s c2)))\<rparr>)"
    using assms(1) by (rule battle_round_store)
next
  assume h: "round_num \<le> 20 \<and>
    hp (s c2) \<le> damage (calculate_attack_02 tbl (s c1) (s c2)) (defense (s c2)) \<and>
    hp (s c1) \<le> damage (calculate_attack_02 tbl (s c2) (s c1)) (defense (s c1))"
  let ?s' = "fst (battle_round (calculate_attack_02 tbl) c1 c2 s)"
  have z: "hp (?s' c1) = 0" "hp (?s' c2) = 0"
    using assms(1) h by (simp_all add: battle_round_store max_def)
  show "case battle_loop_02 tbl c1 c2 s round_num out of (s', round_num', out') \<Rightarrow>
         hp (s' c1) = 0 \<and> hp (s' c2) = 0 \<and> round_num' = round_num + 1 \<and>
         length out' = length out + 1 \<and> verdict_02 (s' c1) (s' c2) round_num' = Draw"
    using assms h z
    by (simp add: battle_loop_02_step battle_loop_02_exit verdict_02_def)
next
  assume h: "hp (s c2) \<le> damage (calculate_attack_01 tbl' (s c1) (s c2)) (defense (s c2)) \<and>
    hp (s c1) \<le> damage (calculate_attack_01 tbl' (s c2) (s c1)) (defense (s c1))"
  let ?s' = "fst (battle_round (calculate_attack_01 tbl') c1 c2 s)"
  have z: "hp (?s' c1) = 0" "hp (?s' c2) = 0"
    using assms(1) h by (simp_all add: battle_round_store max_def)
  show "case battle_loop_01 tbl' c1 c2 s round_num out of (s', round_num', out') \<Rightarrow>
         hp (s' c1) = 0 \<and> hp (s' c2) = 0 \<and> round_num' = round_num + 1 \<and>
         length out' = length out + 1 \<and> verdict_01 (s' c1) (s' c2) = Draw"
    using assms h z
    by (simp add: battle_loop_01_step battle_loop_01_exit verdict_01_def)
qed

text \<open>
  The theorem at two earth cards, the first with hp 5 and attack 10, the second with
  hp 8 and attack 6, neither with any defense: each blow is lethal, both hp are 0 after
  the first round and the duel is a draw in both versions.
\<close>

theorem simultaneous_round_lethal_draw_witness:
  "(0::addr) \<noteq> 1 \<and> 0 < hp ((store_of2 (Card_02 ''a'' 5 10 0 el_earth ''r'') (Card_02 ''b'' 8 6 0 el_earth ''r'')) 0) \<and> 0 < hp ((store_of2 (Card_02 ''a'' 5 10 0 el_earth ''r'') (Card_02 ''b'' 8 6 0 el_earth ''r'')) 1) \<and> (1::nat) \<le> 20 \<and>
   hp ((store_of2 (Card_02 ''a'' 5 10 0 el_earth ''r'') (Card_02 ''b'' 8 6 0 el_earth ''r'')) 1) \<le> damage (calculate_attack_02 element_relations_02 ((store_of2 (Card_02 ''a'' 5 10 0 el_earth ''r'') (Card_02 ''b'' 8 6 0 el_earth ''r'')) 0) ((store_of2 (Card_02 ''a'' 5 10 0 el_earth ''r'') (Card_02 ''b'' 8 6 0 el_earth ''r'')) 1)) (defense ((store_of2 (Card_02 ''a'' 5 10 0 el_earth ''r'') (Card_02 ''b'' 8 6 0 el_earth ''r'')) 1)) \<and>
   hp ((store_of2 (Card_02 ''a'' 5 10 0 el_earth ''r'') (Card_02 ''b'' 8 6 0 el_earth ''r'')) 0) \<le> damage (calculate_attack_02 element_relations_02 ((store_of2 (Card_02 ''a'' 5 10 0 el_earth ''r'') (Card_02 ''b'' 8 6 0 el_earth ''r'')) 1) ((store_of2 (Card_02 ''a'' 5 10 0 el_earth ''r'') (Card_02 ''b'' 8 6 0 el_earth ''r'')) 0)) (defense ((store_of2 (Card_02 ''a'' 5 10 0 el_earth ''r'') (Card_02 ''b'' 8 6 0 el_earth ''r'')) 0)) \<and>
   hp ((store_of2 (Card_02 ''a'' 5 10 0 el_earth ''r'') (Card_02 ''b'' 8 6 0 el_earth ''r'')) 1) \<le> damage (calculate_attack_01 element_relations_01 ((store_of2 (Card_02 ''a'' 5 10 0 el_earth ''r'') (Card_02 ''b'' 8 6 0 el_earth ''r'')) 0) ((store_of2 (Card_02 ''a'' 5 10 0 el_earth ''r'') (Card_02 ''b'' 8 6 0 el_earth ''r'')) 1)) (defense ((store_of2 (Card_02 ''a'' 5 10 0 el_earth ''r'') (Card_02 ''b'' 8 6 0 el_earth ''r'')) 1)) \<and>
   hp ((store_of2 (Card_02 ''a'' 5 10 0 el_earth ''r'') (Card_02 ''b'' 8 6 0 el_earth ''r'')) 0) \<le> damage (calculate_attack_01 element_relations_01 ((store_of2 (Card_02 ''a'' 5 10 0 el_earth ''r'') (Card_02 ''b'' 8 6 0 el_earth ''r'')) 1) ((store_of2 (Card_02 ''a'' 5 10 0 el_earth ''r'') (Card_02 ''b'' 8 6 0 el_earth ''r'')) 0)) (defense ((store_of2 (Card_02 ''a'' 5 10 0 el_earth ''r'') (Card_02 ''b'' 8 6 0 el_earth ''r'')) 0)) \<and>
   (case battle_loop_02 element_relations_02 0 1 (store_of2 (Card_02 ''a'' 5 10 0 el_earth ''r'') (Card_02 ''b'' 8 6 0 el_earth ''r'')) 1 [] of (s', round_num', out') \<Rightarrow>
      hp (s' 0) = 0 \<and> hp (s' 1) = 0 \<and> round_num' = 1 + 1 \<and> length out' = length ([] :: round_record list) + 1 \<and>
      verdict_02 (s' 0) (s' 1) round_num' = Draw) \<and>
   (case battle_loop_01 element_relations_01 0 1 (store_of2 (Card_02 ''a'' 5 10 0 el_earth ''r'') (Card_02 ''b'' 8 6 0 el_earth ''r'')) 1 [] of (s', round_num', out') \<Rightarrow>
      hp (s' 0) = 0 \<and> hp (s' 1) = 0 \<and> round_num' = 1 + 1 \<and> length out' = length ([] :: round_record list) + 1 \<and>
      verdict_01 (s' 0) (s' 1) = Draw)"
proof -
  have neq: "(0::addr) \<noteq> 1"
    by simp
  have alive: "0 < hp ((store_of2 (Card_02 ''a'' 5 10 0 el_earth ''r'') (Card_02 ''b'' 8 6 0 el_earth ''r'')) 0)" "0 < hp ((store_of2 (Card_02 ''a'' 5 10 0 el_earth ''r'') (Card_02 ''b'' 8 6 0 el_earth ''r'')) 1)"
    by (simp_all add: store_of2_def Card_02_def)
  have a2: "calculate_attack_02 element_relations_02 ((store_of2 (Card_02 ''a'' 5 10 0 el_earth ''r'') (Card_02 ''b'' 8 6 0 el_earth ''r'')) 0) ((store_of2 (Card_02 ''a'' 5 10 0 el_earth ''r'') (Card_02 ''b'' 8 6 0 el_earth ''r'')) 1) = 10"
    "calculate_attack_02 element_relations_02 ((store_of2 (Card_02 ''a'' 5 10 0 el_earth ''r'') (Card_02 ''b'' 8 6 0 el_earth ''r'')) 1) ((store_of2 (Card_02 ''a'' 5 10 0 el_earth ''r'') (Card_02 ''b'' 8 6 0 el_earth ''r'')) 0) = 6"
    by (simp_all add: calculate_attack_02_def dict_get_def element_relations_02_def el_defs
        store_of2_def Card_02_def Let_def)
  have a1: "calculate_attack_01 element_relations_01 ((store_of2 (Card_02 ''a'' 5 10 0 el_earth ''r'') (Card_02 ''b'' 8 6 0 el_earth ''r'')) 0) ((store_of2 (Card_02 ''a'' 5 10 0 el_earth ''r'') (Card_02 ''b'' 8 6 0 el_earth ''r'')) 1) = 10"
    "calculate_attack_01 element_relations_01 ((store_of2 (Card_02 ''a'' 5 10 0 el_earth ''r'') (Card_02 ''b'' 8 6 0 el_earth ''r'')) 1) ((store_of2 (Card_02 ''a'' 5 10 0 el_earth ''r'') (Card_02 ''b'' 8 6 0 el_earth ''r'')) 0) = 6"
    by (simp_all add: calculate_attack_01_def dict_get_def element_relations_01_def el_defs
        py_eq_str_def store_of2_def Card_02_def Let_def)
  have cap: "(1::nat) \<le> 20"
    by simp
  have l2: "hp ((store_of2 (Card_02 ''a'' 5 10 0 el_earth ''r'') (Card_02 ''b'' 8 6 0 el_earth ''r'')) 1) \<le> damage (calculate_attack_02 element_relations_02 ((store_of2 (Card_02 ''a'' 5 10 0 el_earth ''r'') (Card_02 ''b'' 8 6 0 el_earth ''r'')) 0) ((store_of2 (Card_02 ''a'' 5 10 0 el_earth ''r'') (Card_02 ''b'' 8 6 0 el_earth ''r'')) 1)) (defense ((store_of2 (Card_02 ''a'' 5 10 0 el_earth ''r'') (Card_02 ''b'' 8 6 0 el_earth ''r'')) 1))"
    "hp ((store_of2 (Card_02 ''a'' 5 10 0 el_earth ''r'') (Card_02 ''b'' 8 6 0 el_earth ''r'')) 0) \<le> damage (calculate_attack_02 element_relations_02 ((store_of2 (Card_02 ''a'' 5 10 0 el_earth ''r'') (Card_02 ''b'' 8 6 0 el_earth ''r'')) 1) ((store_of2 (Card_02 ''a'' 5 10 0 el_earth ''r'') (Card_02 ''b'' 8 6 0 el_earth ''r'')) 0)) (defense ((store_of2 (Card_02 ''a'' 5 10 0 el_earth ''r'') (Card_02 ''b'' 8 6 0 el_earth ''r'')) 0))"
    unfolding a2 by (simp_all add: damage_def store_of2_def Card_02_def)
  have l1: "hp ((store_of2 (Card_02 ''a'' 5 10 0 el_earth ''r'') (Card_02 ''b'' 8 6 0 el_earth ''r'')) 1) \<le> damage (calculate_attack_01 element_relations_01 ((store_of2 (Card_02 ''a'' 5 10 0 el_earth ''r'') (Card_02 ''b'' 8 6 0 el_earth ''r'')) 0) ((store_of2 (Card_02 ''a'' 5 10 0 el_earth ''r'') (Card_02 ''b'' 8 6 0 el_earth ''r'')) 1)) (defense ((store_of2 (Card_02 ''a'' 5 10 0 el_earth ''r'') (Card_02 ''b'' 8 6 0 el_earth ''r'')) 1))"
    "hp ((store_of2 (Card_02 ''a'' 5 10 0 el_earth ''r'') (Card_02 ''b'' 8 6 0 el_earth ''r'')) 0) \<le> damage (calculate_attack_01 element_relations_01 ((store_of2 (Card_02 ''a'' 5 10 0 el_earth ''r'') (Card_02 ''b'' 8 6 0 el_earth ''r'')) 1) ((store_of2 (Card_02 ''a'' 5 10 0 el_earth ''r'') (Card_02 ''b'' 8 6 0 el_earth ''r'')) 0)) (defense ((store_of2 (Card_02 ''a'' 5 10 0 el_earth ''r'') (Card_02 ''b'' 8 6 0 el_earth ''r'')) 0))"
    unfolding a1 by (simp_all add: damage_def store_of2_def Card_02_def)
  note t = simultaneous_round_lethal_draw [OF neq alive,
        where calc = "calculate_attack_02 element_relations_02" and round_num = 1
          and tbl = element_relations_02 and tbl' = element_relations_01 and out = "[]"]
  have r2: "case battle_loop_02 element_relations_02 0 1 (store_of2 (Card_02 ''a'' 5 10 0 el_earth ''r'') (Card_02 ''b'' 8 6 0 el_earth ''r'')) 1 [] of (s', round_num', out') \<Rightarrow>
      hp (s' 0) = 0 \<and> hp (s' 1) = 0 \<and> round_num' = 1 + 1 \<and> length out' = length ([] :: round_record list) + 1 \<and>
      verdict_02 (s' 0) (s' 1) round_num' = Draw"
    by (rule mp [OF conjunct1 [OF conjunct2 [OF t]]]) (intro conjI cap l2)
  have r1: "case battle_loop_01 element_relations_01 0 1 (store_of2 (Card_02 ''a'' 5 10 0 el_earth ''r'') (Card_02 ''b'' 8 6 0 el_earth ''r'')) 1 [] of (s', round_num', out') \<Rightarrow>
      hp (s' 0) = 0 \<and> hp (s' 1) = 0 \<and> round_num' = 1 + 1 \<and> length out' = length ([] :: round_record list) + 1 \<and>
      verdict_01 (s' 0) (s' 1) = Draw"
    by (rule mp [OF conjunct2 [OF conjunct2 [OF t]]]) (intro conjI l1)
  show ?thesis
    by (intro conjI neq alive cap l1 l2 r1 r2)
qed

section \<open>The damage of a round\<close>

text \<open>
  Claim C4, as stated, fails: the damage is not the difference whenever the power
  exceeds the defense. A water card of attack 3 strikes a fire card of defense 4 with
  power 4.5, which exceeds 4, and the round deals 1, not 0.5.
\<close>

theorem damage_not_difference_counterexample:
  "of_int (defense (Card_02 ''b'' 20 2 4 el_fire ''r'')) <
     calculate_attack_02 element_relations_02
       (Card_02 ''a'' 20 3 0 el_water ''r'') (Card_02 ''b'' 20 2 4 el_fire ''r'') \<and>
   fst (snd (battle_round (calculate_attack_02 element_relations_02) 0 1
     (store_of2 (Card_02 ''a'' 20 3 0 el_water ''r'') (Card_02 ''b'' 20 2 4 el_fire ''r'')))) = 1 \<and>
   calculate_attack_02 element_relations_02
       (Card_02 ''a'' 20 3 0 el_water ''r'') (Card_02 ''b'' 20 2 4 el_fire ''r'') -
     of_int (defense (Card_02 ''b'' 20 2 4 el_fire ''r'')) = 1 / 2 \<and>
   fst (snd (battle_round (calculate_attack_02 element_relations_02) 0 1
     (store_of2 (Card_02 ''a'' 20 3 0 el_water ''r'') (Card_02 ''b'' 20 2 4 el_fire ''r'')))) \<noteq>
     calculate_attack_02 element_relations_02
       (Card_02 ''a'' 20 3 0 el_water ''r'') (Card_02 ''b'' 20 2 4 el_fire ''r'') -
     of_int (defense (Card_02 ''b'' 20 2 4 el_fire ''r''))"
proof -
  have p: "calculate_attack_02 element_relations_02
       (Card_02 ''a'' 20 3 0 el_water ''r'') (Card_02 ''b'' 20 2 4 el_fire ''r'') = 9 / 2"
    by (simp add: calculate_attack_02_def dict_get_def element_relations_02_def el_defs
        Card_02_def Let_def)
  show ?thesis
    unfolding battle_round_damages
    by (simp add: store_of2_def p damage_def) (simp add: Card_02_def)
qed

text \<open>
  Claim C4, amended. In every round and each direction the damage is the power less the
  opposing defense when that difference is at least 1, and exactly 1 otherwise; so no
  round deals less than 1 in either direction. (The source takes the maximum of 1 and
  the difference; a power that exceeds the defense by less than 1, as a power with a
  fractional part can, deals 1. For a power that is an integer, the damage is the
  difference whenever the power exceeds the defense.)
\<close>

theorem damage_is_floored_difference:
  "(case battle_round calc c1 c2 s of (s', damage1, damage2) \<Rightarrow>
      damage1 = (if 1 \<le> calc (s c1) (s c2) - of_int (defense (s c2))
                 then calc (s c1) (s c2) - of_int (defense (s c2)) else 1) \<and>
      damage2 = (if 1 \<le> calc (s c2) (s c1) - of_int (defense (s c1))
                 then calc (s c2) (s c1) - of_int (defense (s c1)) else 1) \<and>
      1 \<le> damage1 \<and> 1 \<le> damage2) \<and>
   damage (of_int a) d = (if d < a then of_int a - of_int d else 1)"
proof -
  have "damage (of_int a) d = (if d < a then of_int a - of_int d else 1)"
  proof (cases "d < a")
    case True
    then have "1 \<le> a - d"
      by simp
    then have "(1::rat) \<le> of_int (a - d)"
      by (simp only: of_int_1_le_iff)
    with True show ?thesis
      by (simp add: damage_def max_def)
  next
    case False
    then show ?thesis
      by (simp add: damage_def)
  qed
  then show ?thesis
    using battle_round_damages [of calc c1 c2 s]
    by (cases "battle_round calc c1 c2 s") (simp add: damage_max max_def)
qed

section \<open>Fractional damage\<close>

lemma odd_half_not_int:
  assumes "odd (a::int)"
  shows "(of_int a * (1 / 2) :: rat) \<notin> \<int>"
proof
  assume "(of_int a * (1 / 2) :: rat) \<in> \<int>"
  then obtain z :: int where "(of_int a * (1 / 2) :: rat) = of_int z"
    by (auto elim: Ints_cases)
  then have "(of_int a :: rat) = of_int (2 * z)"
    by simp
  then have "a = 2 * z"
    by (simp only: of_int_eq_iff)
  with assms show False
    by simp
qed

lemma odd_three_halves_not_int:
  assumes "odd (a::int)"
  shows "(of_int a * (3 / 2) :: rat) \<notin> \<int>"
proof -
  have "odd (3 * a)"
    using assms by simp
  then have "(of_int (3 * a) * (1 / 2) :: rat) \<notin> \<int>"
    by (rule odd_half_not_int)
  then show ?thesis
    by (simp add: mult.commute)
qed

lemma diff_int_not_int:
  assumes "(x::rat) \<notin> \<int>"
  shows "x - of_int d \<notin> \<int>"
proof
  assume "x - of_int d \<in> \<int>"
  then have "(x - of_int d) + of_int d \<in> \<int>"
    by (intro Ints_add) simp_all
  with assms show False
    by simp
qed

lemma damage_multiplied:
  assumes "1 \<le> of_int a * m - of_int d"
  shows "damage (of_int a * m) d = of_int a * m - of_int d"
  using assms by (simp add: damage_max max_def)

lemma eleven_halves: "(11 / 2 :: rat) \<notin> \<int>" "(17 / 2 :: rat) \<notin> \<int>"
  using odd_half_not_int [of 11] odd_half_not_int [of 17] by simp_all

lemma boosted_damage_02:
  assumes "element d \<in> beats_02 tbl (element a)"
    and "1 \<le> of_int (attack a) * (3 / 2) - (of_int (defense d) :: rat)"
  shows "damage (calculate_attack_02 tbl a d) (defense d) =
           of_int (attack a) * (3 / 2) - of_int (defense d) \<and>
         (odd (attack a) \<longrightarrow> damage (calculate_attack_02 tbl a d) (defense d) \<notin> \<int>)"
proof -
  have p: "calculate_attack_02 tbl a d = of_int (attack a) * (3 / 2)"
    using assms by (simp add: calculate_attack_02_spec spec_multiplier_def)
  have dmg: "damage (of_int (attack a) * (3 / 2)) (defense d) =
      of_int (attack a) * (3 / 2) - of_int (defense d)"
    using assms by (intro damage_multiplied)
  have "of_int (attack a) * (3 / 2) - (of_int (defense d) :: rat) \<notin> \<int>" if "odd (attack a)"
    using that by (intro diff_int_not_int odd_three_halves_not_int)
  with p dmg show ?thesis
    by (simp only:) blast
qed

lemma weakened_damage_02:
  assumes "element d \<notin> beats_02 tbl (element a)" and "element d \<in> loses_to_02 tbl (element a)"
    and "1 \<le> of_int (attack a) * (1 / 2) - (of_int (defense d) :: rat)"
  shows "damage (calculate_attack_02 tbl a d) (defense d) =
           of_int (attack a) * (1 / 2) - of_int (defense d) \<and>
         (odd (attack a) \<longrightarrow> damage (calculate_attack_02 tbl a d) (defense d) \<notin> \<int>)"
proof -
  have p: "calculate_attack_02 tbl a d = of_int (attack a) * (1 / 2)"
    using assms by (simp add: calculate_attack_02_spec spec_multiplier_def)
  have dmg: "damage (of_int (attack a) * (1 / 2)) (defense d) =
      of_int (attack a) * (1 / 2) - of_int (defense d)"
    using assms by (intro damage_multiplied)
  have "of_int (attack a) * (1 / 2) - (of_int (defense d) :: rat) \<notin> \<int>" if "odd (attack a)"
    using that by (intro diff_int_not_int odd_half_not_int)
  with p dmg show ?thesis
    by (simp only:) blast
qed

lemma boosted_damage_01:
  assumes "element d \<in> beats_01 tbl (element a)"
    and "1 \<le> of_int (attack a) * (3 / 2) - (of_int (defense d) :: rat)"
  shows "damage (calculate_attack_01 tbl a d) (defense d) =
           of_int (attack a) * (3 / 2) - of_int (defense d) \<and>
         (odd (attack a) \<longrightarrow> damage (calculate_attack_01 tbl a d) (defense d) \<notin> \<int>)"
proof -
  have p: "calculate_attack_01 tbl a d = of_int (attack a) * (3 / 2)"
    using assms by (simp add: calculate_attack_01_spec spec_multiplier_def)
  have dmg: "damage (of_int (attack a) * (3 / 2)) (defense d) =
      of_int (attack a) * (3 / 2) - of_int (defense d)"
    using assms by (intro damage_multiplied)
  have "of_int (attack a) * (3 / 2) - (of_int (defense d) :: rat) \<notin> \<int>" if "odd (attack a)"
    using that by (intro diff_int_not_int odd_three_halves_not_int)
  with p dmg show ?thesis
    by (simp only:) blast
qed

lemma weakened_damage_01:
  assumes "element d \<notin> beats_01 tbl (element a)" and "element d \<in> loses_to_01 tbl (element a)"
    and "1 \<le> of_int (attack a) * (1 / 2) - (of_int (defense d) :: rat)"
  shows "damage (calculate_attack_01 tbl a d) (defense d) =
           of_int (attack a) * (1 / 2) - of_int (defense d) \<and>
         (odd (attack a) \<longrightarrow> damage (calculate_attack_01 tbl a d) (defense d) \<notin> \<int>)"
proof -
  have p: "calculate_attack_01 tbl a d = of_int (attack a) * (1 / 2)"
    using assms by (simp add: calculate_attack_01_spec spec_multiplier_def)
  have dmg: "damage (of_int (attack a) * (1 / 2)) (defense d) =
      of_int (attack a) * (1 / 2) - of_int (defense d)"
    using assms by (intro damage_multiplied)
  have "of_int (attack a) * (1 / 2) - (of_int (defense d) :: rat) \<notin> \<int>" if "odd (attack a)"
    using that by (intro diff_int_not_int odd_half_not_int)
  with p dmg show ?thesis
    by (simp only:) blast
qed

lemma water_fire_duel:
  "simulate_battle_02 parse_decimal element_relations_02 (collection_of2 (Card_02 ''a'' 10 3 0 el_water ''r'') (Card_02 ''b'' 10 3 0 el_fire ''r'')) ''1'' ''2'' =
     (\<lparr>cards = [0, 1],
       store = (store_of2 (Card_02 ''a'' 10 3 0 el_water ''r'') (Card_02 ''b'' 10 3 0 el_fire ''r''))(2 := (Card_02 ''a'' 10 3 0 el_water ''r'')\<lparr>hp := 11 / 2\<rparr>, 3 := (Card_02 ''b'' 10 3 0 el_fire ''r'')\<lparr>hp := 0\<rparr>),
       next_addr = 4\<rparr>,
      Inr \<lparr>br_name1 = ''a'', br_name2 = ''b'',
           br_log = [\<lparr>rr_round = 1, rr_damage1 = 9 / 2, rr_damage2 = 3 / 2, rr_hp1 = 17 / 2, rr_hp2 = 11 / 2\<rparr>,
                     \<lparr>rr_round = 2, rr_damage1 = 9 / 2, rr_damage2 = 3 / 2, rr_hp1 = 7, rr_hp2 = 1\<rparr>,
                     \<lparr>rr_round = 3, rr_damage1 = 9 / 2, rr_damage2 = 3 / 2, rr_hp1 = 11 / 2, rr_hp2 = 0\<rparr>],
           br_verdict = Wins1\<rparr>)"
  by (simp add: simulate_battle_02_def parse_decimal_def collection_of2_def store_of2_def
      new_object_def Card_02_def Let_def battle_loop_02.simps battle_round_def
      calculate_attack_02_def dict_get_def element_relations_02_def el_defs damage_def
      verdict_02_def fun_eq_iff)

text \<open>
  Claim C10, as stated, fails where the power exceeds the defense by less than 1. A
  fire card of attack 5 strikes a water card of defense 2 at half power, 2.5, which
  exceeds 2; the damage is 1, an integer, not 2.5 - 2.
\<close>

theorem multiplied_damage_counterexample:
  "el_water \<notin> beats_02 element_relations_02 (element (Card_02 ''f'' 20 5 0 el_fire ''r'')) \<and>
   el_water \<in> loses_to_02 element_relations_02 (element (Card_02 ''f'' 20 5 0 el_fire ''r'')) \<and>
   element (Card_02 ''w'' 20 1 2 el_water ''r'') = el_water \<and> odd (attack (Card_02 ''f'' 20 5 0 el_fire ''r'')) \<and>
   of_int (defense (Card_02 ''w'' 20 1 2 el_water ''r'')) < calculate_attack_02 element_relations_02 (Card_02 ''f'' 20 5 0 el_fire ''r'') (Card_02 ''w'' 20 1 2 el_water ''r'') \<and>
   of_int (attack (Card_02 ''f'' 20 5 0 el_fire ''r'')) * (1 / 2) - of_int (defense (Card_02 ''w'' 20 1 2 el_water ''r'')) = (1 / 2 :: rat) \<and>
   damage (calculate_attack_02 element_relations_02 (Card_02 ''f'' 20 5 0 el_fire ''r'') (Card_02 ''w'' 20 1 2 el_water ''r'')) (defense (Card_02 ''w'' 20 1 2 el_water ''r'')) = 1 \<and>
   damage (calculate_attack_02 element_relations_02 (Card_02 ''f'' 20 5 0 el_fire ''r'') (Card_02 ''w'' 20 1 2 el_water ''r'')) (defense (Card_02 ''w'' 20 1 2 el_water ''r'')) \<noteq>
     of_int (attack (Card_02 ''f'' 20 5 0 el_fire ''r'')) * (1 / 2) - of_int (defense (Card_02 ''w'' 20 1 2 el_water ''r'')) \<and>
   damage (calculate_attack_02 element_relations_02 (Card_02 ''f'' 20 5 0 el_fire ''r'') (Card_02 ''w'' 20 1 2 el_water ''r'')) (defense (Card_02 ''w'' 20 1 2 el_water ''r'')) \<in> \<int>"
proof -
  have p: "calculate_attack_02 element_relations_02 (Card_02 ''f'' 20 5 0 el_fire ''r'') (Card_02 ''w'' 20 1 2 el_water ''r'') = 5 / 2"
    by (simp add: calculate_attack_02_def dict_get_def element_relations_02_def el_defs
        Card_02_def Let_def)
  show ?thesis
    unfolding p
    by (simp add: beats_02_def loses_to_02_def element_relations_02_def el_defs Card_02_def
        damage_def)
qed

text \<open>
  Claim C10, amended. Battle arithmetic is not closed over the integers: for every
  matchup of cards whose attack and defense are at most 2 ^ 50 in magnitude, where a
  multiplier of 1.5 or 0.5 applies and the resulting power exceeds the defender's
  defense by at least 1, the damage is attack * 1.5 - defense (respectively
  attack * 0.5 - defense), which is not an integer when the attack is odd. So the hp
  of a snapshot can be non-integral during and at the end of a battle although the
  cards have integer hp: in version 0.2 a water card and a fire card, both with hp 10,
  attack 3 and no defense, show the hp 8.5 and 5.5 after the first round, and the
  winner's snapshot ends with hp 5.5.

  The bound keeps the products and differences among the doubles, where the program
  computes them without rounding (\<open>py_times_exact\<close>, \<open>damage_py_exact\<close> below). Past it
  the statement is false of the program: the odd attack 2 ^ 52 + 1 at the multiplier
  1.5 gives the power 6755399441055746.0 (\<open>round_large_odd_power\<close>).
\<close>

theorem multiplied_damage_not_integral:
  fixes tbl :: table_02 and tbl' :: table_01
  shows
  "(\<bar>attack a\<bar> \<le> 2 ^ 50 \<and> \<bar>defense d\<bar> \<le> 2 ^ 50 \<and>
    element d \<in> beats_02 tbl (element a) \<and>
    1 \<le> of_int (attack a) * (3 / 2) - (of_int (defense d) :: rat) \<longrightarrow>
      damage (calculate_attack_02 tbl a d) (defense d) =
        of_int (attack a) * (3 / 2) - of_int (defense d) \<and>
      (odd (attack a) \<longrightarrow> damage (calculate_attack_02 tbl a d) (defense d) \<notin> \<int>)) \<and>
   (\<bar>attack a\<bar> \<le> 2 ^ 50 \<and> \<bar>defense d\<bar> \<le> 2 ^ 50 \<and>
    element d \<notin> beats_02 tbl (element a) \<and> element d \<in> loses_to_02 tbl (element a) \<and>
    1 \<le> of_int (attack a) * (1 / 2) - (of_int (defense d) :: rat) \<longrightarrow>
      damage (calculate_attack_02 tbl a d) (defense d) =
        of_int (attack a) * (1 / 2) - of_int (defense d) \<and>
      (odd (attack a) \<longrightarrow> damage (calculate_attack_02 tbl a d) (defense d) \<notin> \<int>)) \<and>
   (\<bar>attack a\<bar> \<le> 2 ^ 50 \<and> \<bar>defense d\<bar> \<le> 2 ^ 50 \<and>
    element d \<in> beats_01 tbl' (element a) \<and>
    1 \<le> of_int (attack a) * (3 / 2) - (of_int (defense d) :: rat) \<longrightarrow>
      damage (calculate_attack_01 tbl' a d) (defense d) =
        of_int (attack a) * (3 / 2) - of_int (defense d) \<and>
      (odd (attack a) \<longrightarrow> damage (calculate_attack_01 tbl' a d) (defense d) \<notin> \<int>)) \<and>
   (\<bar>attack a\<bar> \<le> 2 ^ 50 \<and> \<bar>defense d\<bar> \<le> 2 ^ 50 \<and>
    element d \<notin> beats_01 tbl' (element a) \<and> element d \<in> loses_to_01 tbl' (element a) \<and>
    1 \<le> of_int (attack a) * (1 / 2) - (of_int (defense d) :: rat) \<longrightarrow>
      damage (calculate_attack_01 tbl' a d) (defense d) =
        of_int (attack a) * (1 / 2) - of_int (defense d) \<and>
      (odd (attack a) \<longrightarrow> damage (calculate_attack_01 tbl' a d) (defense d) \<notin> \<int>)) \<and>
   hp (Card_02 ''a'' 10 3 0 el_water ''r'') \<in> \<int> \<and> hp (Card_02 ''b'' 10 3 0 el_fire ''r'') \<in> \<int> \<and>
   (case simulate_battle_02 parse_decimal element_relations_02 (collection_of2 (Card_02 ''a'' 10 3 0 el_water ''r'') (Card_02 ''b'' 10 3 0 el_fire ''r'')) ''1'' ''2'' of
      (m', res) \<Rightarrow>
        hp (store m' 2) \<notin> \<int> \<and>
        (case res of Inl e \<Rightarrow> False
         | Inr r \<Rightarrow> rr_hp1 (hd (br_log r)) \<notin> \<int> \<and> rr_hp2 (hd (br_log r)) \<notin> \<int> \<and>
                    rr_hp1 (last (br_log r)) \<notin> \<int>))"
proof -
  have ex: "hp (Card_02 ''a'' 10 3 0 el_water ''r'') \<in> \<int> \<and> hp (Card_02 ''b'' 10 3 0 el_fire ''r'') \<in> \<int> \<and>
   (case simulate_battle_02 parse_decimal element_relations_02 (collection_of2 (Card_02 ''a'' 10 3 0 el_water ''r'') (Card_02 ''b'' 10 3 0 el_fire ''r'')) ''1'' ''2'' of
      (m', res) \<Rightarrow>
        hp (store m' 2) \<notin> \<int> \<and>
        (case res of Inl e \<Rightarrow> False
         | Inr r \<Rightarrow> rr_hp1 (hd (br_log r)) \<notin> \<int> \<and> rr_hp2 (hd (br_log r)) \<notin> \<int> \<and>
                    rr_hp1 (last (br_log r)) \<notin> \<int>))"
    unfolding water_fire_duel by (simp add: eleven_halves) (simp add: Card_02_def)
  show ?thesis
    using boosted_damage_02 [of d tbl a] weakened_damage_02 [of d tbl a]
      boosted_damage_01 [of d tbl' a] weakened_damage_01 [of d tbl' a] ex
    by blast
qed

text \<open>
  The theorem at a water card of attack 3 striking a fire card without defense, in both
  versions (damage 4.5), and at a fire card of attack 5 striking a water card of
  defense 1 (damage 1.5); all four numbers are within the bound.
\<close>

theorem multiplied_damage_not_integral_witness:
  "(\<bar>3::int\<bar> \<le> 2 ^ 50 \<and> \<bar>0::int\<bar> \<le> 2 ^ 50 \<and> \<bar>5::int\<bar> \<le> 2 ^ 50 \<and> \<bar>1::int\<bar> \<le> 2 ^ 50) \<and>
   (el_fire \<in> beats_02 element_relations_02 el_water \<and>
    (1::rat) \<le> of_int 3 * (3 / 2) - of_int 0 \<and> odd (3::int) \<and>
    damage (calculate_attack_02 element_relations_02 (Card_02 ''a'' 10 3 0 el_water ''r'') (Card_02 ''b'' 10 3 0 el_fire ''r'')) (defense (Card_02 ''b'' 10 3 0 el_fire ''r'')) = 9 / 2 \<and>
    damage (calculate_attack_02 element_relations_02 (Card_02 ''a'' 10 3 0 el_water ''r'') (Card_02 ''b'' 10 3 0 el_fire ''r'')) (defense (Card_02 ''b'' 10 3 0 el_fire ''r'')) \<notin> \<int>) \<and>
   (el_water \<notin> beats_02 element_relations_02 el_fire \<and>
    el_water \<in> loses_to_02 element_relations_02 el_fire \<and>
    (1::rat) \<le> of_int 5 * (1 / 2) - of_int 1 \<and> odd (5::int) \<and>
    damage (calculate_attack_02 element_relations_02 (Card_02 ''f'' 20 5 0 el_fire ''r'') (Card_02 ''x'' 20 1 1 el_water ''r'')) (defense (Card_02 ''x'' 20 1 1 el_water ''r'')) = 3 / 2 \<and>
    damage (calculate_attack_02 element_relations_02 (Card_02 ''f'' 20 5 0 el_fire ''r'') (Card_02 ''x'' 20 1 1 el_water ''r'')) (defense (Card_02 ''x'' 20 1 1 el_water ''r'')) \<notin> \<int>) \<and>
   (el_fire \<in> beats_01 element_relations_01 el_water \<and>
    damage (calculate_attack_01 element_relations_01 (Card_02 ''a'' 10 3 0 el_water ''r'') (Card_02 ''b'' 10 3 0 el_fire ''r'')) (defense (Card_02 ''b'' 10 3 0 el_fire ''r'')) = 9 / 2 \<and>
    damage (calculate_attack_01 element_relations_01 (Card_02 ''a'' 10 3 0 el_water ''r'') (Card_02 ''b'' 10 3 0 el_fire ''r'')) (defense (Card_02 ''b'' 10 3 0 el_fire ''r'')) \<notin> \<int>) \<and>
   (el_water \<notin> beats_01 element_relations_01 el_fire \<and>
    el_water \<in> loses_to_01 element_relations_01 el_fire \<and>
    damage (calculate_attack_01 element_relations_01 (Card_02 ''f'' 20 5 0 el_fire ''r'') (Card_02 ''x'' 20 1 1 el_water ''r'')) (defense (Card_02 ''x'' 20 1 1 el_water ''r'')) = 3 / 2 \<and>
    damage (calculate_attack_01 element_relations_01 (Card_02 ''f'' 20 5 0 el_fire ''r'') (Card_02 ''x'' 20 1 1 el_water ''r'')) (defense (Card_02 ''x'' 20 1 1 el_water ''r'')) \<notin> \<int>)"
proof -
  have b2: "el_fire \<in> beats_02 element_relations_02 el_water"
    "el_water \<notin> beats_02 element_relations_02 el_fire"
    "el_water \<in> loses_to_02 element_relations_02 el_fire"
    by (simp_all add: beats_02_def loses_to_02_def element_relations_02_def el_defs)
  have b1: "el_fire \<in> beats_01 element_relations_01 el_water"
    "el_water \<notin> beats_01 element_relations_01 el_fire"
    "el_water \<in> loses_to_01 element_relations_01 el_fire"
    by (simp_all add: beats_01_def loses_to_01_def element_relations_01_def el_defs)
  have n: "(1::rat) \<le> of_int 3 * (3 / 2) - of_int 0" "(1::rat) \<le> of_int 5 * (1 / 2) - of_int 1"
    "odd (3::int)" "odd (5::int)"
    "\<bar>3::int\<bar> \<le> 2 ^ 50" "\<bar>0::int\<bar> \<le> 2 ^ 50" "\<bar>5::int\<bar> \<le> 2 ^ 50" "\<bar>1::int\<bar> \<le> 2 ^ 50"
    by simp_all
  show ?thesis
    using b1 b2 n
      multiplied_damage_not_integral [where d = "Card_02 ''b'' 10 3 0 el_fire ''r''" and tbl = element_relations_02
          and a = "Card_02 ''a'' 10 3 0 el_water ''r''" and tbl' = element_relations_01]
      multiplied_damage_not_integral [where d = "Card_02 ''x'' 20 1 1 el_water ''r''" and tbl = element_relations_02
          and a = "Card_02 ''f'' 20 5 0 el_fire ''r''" and tbl' = element_relations_01]
    by (simp add: Card_02_def)
qed

section \<open>The collection during a duel\<close>

lemma battle_loop_02_frame:
  assumes "a \<noteq> c1" and "a \<noteq> c2"
  shows "fst (battle_loop_02 tbl c1 c2 s round_num out) a = s a"
proof (induction s round_num out rule: battle_loop_02_induct [where tbl = tbl and ?c1.0 = c1 and ?c2.0 = c2])
  case (exit s round_num out)
  then show ?case by (simp add: battle_loop_02_exit)
next
  case (step s round_num out r)
  then show ?case
    using assms by (simp add: battle_loop_02_step battle_round_frame)
qed

lemma battle_loop_01_frame:
  assumes "a \<noteq> c1" and "a \<noteq> c2"
  shows "fst (battle_loop_01 tbl c1 c2 s round_num out) a = s a"
proof (induction s round_num out rule: battle_loop_01_induct [where tbl = tbl and ?c1.0 = c1 and ?c2.0 = c2])
  case (exit s round_num out)
  then show ?case by (simp add: battle_loop_01_exit)
next
  case (step s round_num out r)
  then show ?case
    using assms by (simp add: battle_loop_01_step battle_round_frame)
qed

lemma battle_loop_02_only_hp:
  "fst (battle_loop_02 tbl c1 c2 s round_num out) a =
     (s a)\<lparr>hp := hp (fst (battle_loop_02 tbl c1 c2 s round_num out) a)\<rparr>"
proof (induction s round_num out rule: battle_loop_02_induct [where tbl = tbl and ?c1.0 = c1 and ?c2.0 = c2])
  case (exit s round_num out)
  then show ?case by (simp add: battle_loop_02_exit)
next
  case (step s round_num out r)
  let ?s' = "fst (battle_round (calculate_attack_02 tbl) c1 c2 s)"
  have eq: "battle_loop_02 tbl c1 c2 s round_num out =
      battle_loop_02 tbl c1 c2 ?s' (round_num + 1) (out @ [r])"
    using step(1-4) by (simp add: battle_loop_02_step)
  have "fst (battle_loop_02 tbl c1 c2 ?s' (round_num + 1) (out @ [r])) a =
      (?s' a)\<lparr>hp := hp (fst (battle_loop_02 tbl c1 c2 ?s' (round_num + 1) (out @ [r])) a)\<rparr>"
    by (rule step.IH)
  also have "\<dots> = (s a)\<lparr>hp := hp (fst (battle_loop_02 tbl c1 c2 ?s' (round_num + 1) (out @ [r])) a)\<rparr>"
    by (subst battle_round_only_hp) simp
  finally show ?case
    unfolding eq .
qed

lemma battle_loop_01_only_hp:
  "fst (battle_loop_01 tbl c1 c2 s round_num out) a =
     (s a)\<lparr>hp := hp (fst (battle_loop_01 tbl c1 c2 s round_num out) a)\<rparr>"
proof (induction s round_num out rule: battle_loop_01_induct [where tbl = tbl and ?c1.0 = c1 and ?c2.0 = c2])
  case (exit s round_num out)
  then show ?case by (simp add: battle_loop_01_exit)
next
  case (step s round_num out r)
  let ?s' = "fst (battle_round (calculate_attack_01 tbl) c1 c2 s)"
  have eq: "battle_loop_01 tbl c1 c2 s round_num out =
      battle_loop_01 tbl c1 c2 ?s' (round_num + 1) (out @ [r])"
    using step(1-3) by (simp add: battle_loop_01_step)
  have "fst (battle_loop_01 tbl c1 c2 ?s' (round_num + 1) (out @ [r])) a =
      (?s' a)\<lparr>hp := hp (fst (battle_loop_01 tbl c1 c2 ?s' (round_num + 1) (out @ [r])) a)\<rparr>"
    by (rule step.IH)
  also have "\<dots> = (s a)\<lparr>hp := hp (fst (battle_loop_01 tbl c1 c2 ?s' (round_num + 1) (out @ [r])) a)\<rparr>"
    by (subst battle_round_only_hp) simp
  finally show ?case
    unfolding eq .
qed

text \<open>
  The state \<open>simulate_battle\<close> returns: the collection as it was, and the store the
  loop leaves after the two snapshots were allocated at the next two free addresses.
  On a failure the state is the one given.
\<close>

lemma simulate_battle_02_state:
  "fst (simulate_battle_02 parse tbl m input1 input2) = m \<or>
   (\<exists>k1 k2. k1 < length (cards m) \<and> k2 < length (cards m) \<and>
     fst (simulate_battle_02 parse tbl m input1 input2) =
       m\<lparr>store := fst (battle_loop_02 tbl (next_addr m) (next_addr m + 1)
            ((store m)(next_addr m := Card_02 (name (store m (cards m ! k1))) (hp (store m (cards m ! k1)))
                 (attack (store m (cards m ! k1))) (defense (store m (cards m ! k1)))
                 (element (store m (cards m ! k1))) (rarity (store m (cards m ! k1))),
               next_addr m + 1 := Card_02 (name (store m (cards m ! k2))) (hp (store m (cards m ! k2)))
                 (attack (store m (cards m ! k2))) (defense (store m (cards m ! k2)))
                 (element (store m (cards m ! k2))) (rarity (store m (cards m ! k2))))) 1 []),
         next_addr := next_addr m + 2\<rparr>)"
proof (cases "length (cards m) < 2")
  case True
  then show ?thesis by (simp add: simulate_battle_02_def)
next
  case long: False
  show ?thesis
  proof (cases "parse input1")
    case None
    then show ?thesis by (simp add: simulate_battle_02_def)
  next
    case i1: (Some i1)
    show ?thesis
    proof (cases "parse input2")
      case None
      then show ?thesis using i1 by (simp add: simulate_battle_02_def)
    next
      case i2: (Some i2)
      show ?thesis
      proof (cases "i1 - 1 < 0 \<or> i1 - 1 \<ge> int (length (cards m)) \<or>
              i2 - 1 < 0 \<or> i2 - 1 \<ge> int (length (cards m))")
        case True
        then show ?thesis using i1 i2 by (auto simp: simulate_battle_02_def Let_def)
      next
        case False
        then have k: "nat (i1 - 1) < length (cards m)" "nat (i2 - 1) < length (cards m)"
          by auto
        show ?thesis
          apply (rule disjI2)
          apply (rule exI [of _ "nat (i1 - 1)"])
          apply (rule exI [of _ "nat (i2 - 1)"])
          using False k long i1 i2
          apply (simp add: simulate_battle_02_def Let_def new_object_def split_beta)
          done
      qed
    qed
  qed
qed

lemma simulate_battle_01_state:
  "fst (simulate_battle_01 parse tbl m input1 input2) = m \<or>
   (\<exists>k1 k2. k1 < length (cards m) \<and> k2 < length (cards m) \<and>
     fst (simulate_battle_01 parse tbl m input1 input2) =
       m\<lparr>store := fst (battle_loop_01 tbl (next_addr m) (next_addr m + 1)
            ((store m)(next_addr m := Card_01 (name (store m (cards m ! k1))) (hp (store m (cards m ! k1)))
                 (attack (store m (cards m ! k1))) (defense (store m (cards m ! k1)))
                 (element (store m (cards m ! k1))) (rarity (store m (cards m ! k1))),
               next_addr m + 1 := Card_01 (name (store m (cards m ! k2))) (hp (store m (cards m ! k2)))
                 (attack (store m (cards m ! k2))) (defense (store m (cards m ! k2)))
                 (element (store m (cards m ! k2))) (rarity (store m (cards m ! k2))))) 1 []),
         next_addr := next_addr m + 2\<rparr>)"
proof -
  show ?thesis
  proof (cases "parse input1")
    case None
    then show ?thesis by (simp add: simulate_battle_01_def)
  next
    case i1: (Some i1)
    show ?thesis
    proof (cases "parse input2")
      case None
      then show ?thesis using i1 by (simp add: simulate_battle_01_def)
    next
      case i2: (Some i2)
      show ?thesis
      proof (cases "i1 - 1 < 0 \<or> i1 - 1 \<ge> int (length (cards m)) \<or>
              i2 - 1 < 0 \<or> i2 - 1 \<ge> int (length (cards m))")
        case True
        then show ?thesis using i1 i2 by (auto simp: simulate_battle_01_def Let_def)
      next
        case False
        then have k: "nat (i1 - 1) < length (cards m)" "nat (i2 - 1) < length (cards m)"
          by auto
        show ?thesis
          apply (rule disjI2)
          apply (rule exI [of _ "nat (i1 - 1)"])
          apply (rule exI [of _ "nat (i2 - 1)"])
          using False k i1 i2
          apply (simp add: simulate_battle_01_def Let_def new_object_def split_beta)
          done
      qed
    qed
  qed
qed


lemma wf_manager_fresh:
  assumes "wf_manager m" and "a \<in> set (cards m)"
  shows "a \<noteq> next_addr m \<and> a \<noteq> next_addr m + 1"
  using assms by (auto simp: wf_manager_def list_all_iff)

text \<open>
  Claim C8. The duel works on two snapshots allocated when it starts, at addresses the
  collection does not hold: whatever the inputs and the damage dealt, the collection
  lists the same cards after \<open>simulate_battle\<close> and every one of them has all its
  fields, hp included, as before, in both versions.
\<close>

theorem duel_leaves_collection_unchanged:
  assumes "wf_manager m"
  shows
  "cards (fst (simulate_battle_02 parse tbl m input1 input2)) = cards m \<and>
   list_all (\<lambda>a. store (fst (simulate_battle_02 parse tbl m input1 input2)) a = store m a) (cards m) \<and>
   wf_manager (fst (simulate_battle_02 parse tbl m input1 input2)) \<and>
   cards (fst (simulate_battle_01 parse tbl' m input1 input2)) = cards m \<and>
   list_all (\<lambda>a. store (fst (simulate_battle_01 parse tbl' m input1 input2)) a = store m a) (cards m) \<and>
   wf_manager (fst (simulate_battle_01 parse tbl' m input1 input2))"
proof -
  have wf': "wf_manager (m\<lparr>store := s, next_addr := next_addr m + 2\<rparr>)" for s
    using assms by (auto simp: wf_manager_def list_all_iff)
  have two: "cards (fst (simulate_battle_02 parse tbl m input1 input2)) = cards m \<and>
      list_all (\<lambda>a. store (fst (simulate_battle_02 parse tbl m input1 input2)) a = store m a) (cards m) \<and>
      wf_manager (fst (simulate_battle_02 parse tbl m input1 input2))"
    using simulate_battle_02_state [of parse tbl m input1 input2]
  proof (elim disjE exE conjE)
    assume "fst (simulate_battle_02 parse tbl m input1 input2) = m"
    then show ?thesis
      using assms by (simp add: list_all_iff)
  next
    fix k1 k2
    assume "fst (simulate_battle_02 parse tbl m input1 input2) =
       m\<lparr>store := fst (battle_loop_02 tbl (next_addr m) (next_addr m + 1)
            ((store m)(next_addr m := Card_02 (name (store m (cards m ! k1))) (hp (store m (cards m ! k1)))
                 (attack (store m (cards m ! k1))) (defense (store m (cards m ! k1)))
                 (element (store m (cards m ! k1))) (rarity (store m (cards m ! k1))),
               next_addr m + 1 := Card_02 (name (store m (cards m ! k2))) (hp (store m (cards m ! k2)))
                 (attack (store m (cards m ! k2))) (defense (store m (cards m ! k2)))
                 (element (store m (cards m ! k2))) (rarity (store m (cards m ! k2))))) 1 []),
         next_addr := next_addr m + 2\<rparr>"
    then show ?thesis
      using wf_manager_fresh [OF assms] wf'
      by (simp add: list_all_iff battle_loop_02_frame)
  qed
  have one: "cards (fst (simulate_battle_01 parse tbl' m input1 input2)) = cards m \<and>
      list_all (\<lambda>a. store (fst (simulate_battle_01 parse tbl' m input1 input2)) a = store m a) (cards m) \<and>
      wf_manager (fst (simulate_battle_01 parse tbl' m input1 input2))"
    using simulate_battle_01_state [of parse tbl' m input1 input2]
  proof (elim disjE exE conjE)
    assume "fst (simulate_battle_01 parse tbl' m input1 input2) = m"
    then show ?thesis
      using assms by (simp add: list_all_iff)
  next
    fix k1 k2
    assume "fst (simulate_battle_01 parse tbl' m input1 input2) =
       m\<lparr>store := fst (battle_loop_01 tbl' (next_addr m) (next_addr m + 1)
            ((store m)(next_addr m := Card_01 (name (store m (cards m ! k1))) (hp (store m (cards m ! k1)))
                 (attack (store m (cards m ! k1))) (defense (store m (cards m ! k1)))
                 (element (store m (cards m ! k1))) (rarity (store m (cards m ! k1))),
               next_addr m + 1 := Card_01 (name (store m (cards m ! k2))) (hp (store m (cards m ! k2)))
                 (attack (store m (cards m ! k2))) (defense (store m (cards m ! k2)))
                 (element (store m (cards m ! k2))) (rarity (store m (cards m ! k2))))) 1 []),
         next_addr := next_addr m + 2\<rparr>"
    then show ?thesis
      using wf_manager_fresh [OF assms] wf'
      by (simp add: list_all_iff battle_loop_01_frame)
  qed
  from two one show ?thesis
    by simp
qed

text \<open>
  The theorem at the duel of a water card and a fire card, both with hp 10: the second
  snapshot ends with hp 0, and the two cards of the collection are as they were.
\<close>

theorem duel_leaves_collection_unchanged_witness:
  "wf_manager (collection_of2 (Card_02 ''a'' 10 3 0 el_water ''r'') (Card_02 ''b'' 10 3 0 el_fire ''r'')) \<and>
   hp (store (fst (simulate_battle_02 parse_decimal element_relations_02
        (collection_of2 (Card_02 ''a'' 10 3 0 el_water ''r'') (Card_02 ''b'' 10 3 0 el_fire ''r'')) ''1'' ''2'')) 3) = 0 \<and>
   cards (fst (simulate_battle_02 parse_decimal element_relations_02
        (collection_of2 (Card_02 ''a'' 10 3 0 el_water ''r'') (Card_02 ''b'' 10 3 0 el_fire ''r'')) ''1'' ''2'')) = [0, 1] \<and>
   store (fst (simulate_battle_02 parse_decimal element_relations_02
        (collection_of2 (Card_02 ''a'' 10 3 0 el_water ''r'') (Card_02 ''b'' 10 3 0 el_fire ''r'')) ''1'' ''2'')) 0 = (Card_02 ''a'' 10 3 0 el_water ''r'') \<and>
   store (fst (simulate_battle_02 parse_decimal element_relations_02
        (collection_of2 (Card_02 ''a'' 10 3 0 el_water ''r'') (Card_02 ''b'' 10 3 0 el_fire ''r'')) ''1'' ''2'')) 1 = (Card_02 ''b'' 10 3 0 el_fire ''r'') \<and>
   cards (fst (simulate_battle_01 parse_decimal element_relations_01
        (collection_of2 (Card_02 ''a'' 10 3 0 el_water ''r'') (Card_02 ''b'' 10 3 0 el_fire ''r'')) ''1'' ''2'')) = [0, 1] \<and>
   store (fst (simulate_battle_01 parse_decimal element_relations_01
        (collection_of2 (Card_02 ''a'' 10 3 0 el_water ''r'') (Card_02 ''b'' 10 3 0 el_fire ''r'')) ''1'' ''2'')) 0 = (Card_02 ''a'' 10 3 0 el_water ''r'') \<and>
   store (fst (simulate_battle_01 parse_decimal element_relations_01
        (collection_of2 (Card_02 ''a'' 10 3 0 el_water ''r'') (Card_02 ''b'' 10 3 0 el_fire ''r'')) ''1'' ''2'')) 1 = (Card_02 ''b'' 10 3 0 el_fire ''r'')"
proof -
  have wf: "wf_manager (collection_of2 (Card_02 ''a'' 10 3 0 el_water ''r'') (Card_02 ''b'' 10 3 0 el_fire ''r''))"
    by (simp add: wf_manager_def collection_of2_def)
  have c: "cards (collection_of2 (Card_02 ''a'' 10 3 0 el_water ''r'') (Card_02 ''b'' 10 3 0 el_fire ''r'')) = [0, 1]"
    "store (collection_of2 (Card_02 ''a'' 10 3 0 el_water ''r'') (Card_02 ''b'' 10 3 0 el_fire ''r'')) 0 = (Card_02 ''a'' 10 3 0 el_water ''r'')" "store (collection_of2 (Card_02 ''a'' 10 3 0 el_water ''r'') (Card_02 ''b'' 10 3 0 el_fire ''r'')) (Suc 0) = (Card_02 ''b'' 10 3 0 el_fire ''r'')"
    by (simp_all add: collection_of2_def store_of2_def)
  have dealt: "hp (store (fst (simulate_battle_02 parse_decimal element_relations_02
        (collection_of2 (Card_02 ''a'' 10 3 0 el_water ''r'') (Card_02 ''b'' 10 3 0 el_fire ''r'')) ''1'' ''2'')) 3) = 0"
    unfolding water_fire_duel by simp
  show ?thesis
    using wf dealt
      duel_leaves_collection_unchanged [OF wf, where parse = parse_decimal
        and tbl = element_relations_02 and tbl' = element_relations_01
        and ?input1.0 = "''1''" and ?input2.0 = "''2''"]
    by (simp add: c)
qed

section \<open>Input validation\<close>

text \<open>
  The failures of \<open>simulate_battle\<close>. In version 0.2 a collection of fewer than two
  cards, a line that is not a number and an index out of range each return the failure,
  with the state as it was and no round run. Version 0.1 does the same for the lines
  and the indices, and has no check of the number of cards.
\<close>

lemma simulate_battle_02_validation:
  assumes "length (cards m) < 2 \<or> parse input1 = None \<or> parse input2 = None \<or>
    (\<exists>i. parse input1 = Some i \<and> (i < 1 \<or> int (length (cards m)) < i)) \<or>
    (\<exists>i. parse input2 = Some i \<and> (i < 1 \<or> int (length (cards m)) < i))"
  shows "\<exists>e. simulate_battle_02 parse tbl m input1 input2 = (m, Inl e)"
  using assms
  by (auto simp: simulate_battle_02_def Let_def split: option.splits)

lemma simulate_battle_01_validation:
  assumes "parse input1 = None \<or> parse input2 = None \<or>
    (\<exists>i. parse input1 = Some i \<and> (i < 1 \<or> int (length (cards m)) < i)) \<or>
    (\<exists>i. parse input2 = Some i \<and> (i < 1 \<or> int (length (cards m)) < i))"
  shows "\<exists>e. simulate_battle_01 parse tbl m input1 input2 = (m, Inl e)"
  using assms
  by (auto simp: simulate_battle_01_def Let_def split: option.splits)

text \<open>
  Claim C7 against version 0.1. With a single card in the collection and the index 1
  typed twice, version 0.1 reports no failure: it duels the card against a second copy
  of itself, prints two rounds and announces a draw. Version 0.2 returns the failure
  for the same collection and lines.
\<close>

theorem single_card_duel_runs_in_01:
  "length (cards (collection_of1 (Card_01 ''a'' 10 6 1 el_fire ''r''))) < 2 \<and>
   snd (simulate_battle_01 parse_decimal element_relations_01 (collection_of1 (Card_01 ''a'' 10 6 1 el_fire ''r'')) ''1'' ''1'') =
     Inr \<lparr>br_name1 = ''a'', br_name2 = ''a'',
          br_log = [\<lparr>rr_round = 1, rr_damage1 = 5, rr_damage2 = 5, rr_hp1 = 5, rr_hp2 = 5\<rparr>,
                    \<lparr>rr_round = 2, rr_damage1 = 5, rr_damage2 = 5, rr_hp1 = 0, rr_hp2 = 0\<rparr>],
          br_verdict = Draw\<rparr> \<and>
   simulate_battle_02 parse_decimal element_relations_02 (collection_of1 (Card_01 ''a'' 10 6 1 el_fire ''r'')) ''1'' ''1'' =
     (collection_of1 (Card_01 ''a'' 10 6 1 el_fire ''r''), Inl TooFewCards)"
  by (simp add: simulate_battle_01_def simulate_battle_02_def parse_decimal_def
      collection_of1_def new_object_def Card_01_def Let_def battle_loop_01.simps
      battle_round_def calculate_attack_01_def dict_get_def element_relations_01_def el_defs
      py_eq_str_def damage_def verdict_01_def)

section \<open>The score invariant\<close>

lemma modify_card_success:
  assumes "modify_card parse m n new_hp new_attack new_defense new_element new_rarity = (m', None)"
  shows "\<exists>i c. find_card_by_name m n = (i, Some c) \<and>
           score (store m' c) =
             hp (store m' c) + 4 * of_int (attack (store m' c)) + 4 * of_int (defense (store m' c)) \<and>
           (\<forall>a. a \<noteq> c \<longrightarrow> store m' a = store m a) \<and> cards m' = cards m"
  using assms
  by (auto simp: modify_card_def Let_def split: prod.splits option.splits)

lemma battle_loop_02_keeps_score:
  "score (fst (battle_loop_02 tbl c1 c2 s round_num out) x) = score (s x) \<and>
   attack (fst (battle_loop_02 tbl c1 c2 s round_num out) x) = attack (s x) \<and>
   defense (fst (battle_loop_02 tbl c1 c2 s round_num out) x) = defense (s x)"
  by (subst (1 2 3) battle_loop_02_only_hp) simp

lemma battle_loop_01_keeps_score:
  "score (fst (battle_loop_01 tbl c1 c2 s round_num out) x) = score (s x) \<and>
   attack (fst (battle_loop_01 tbl c1 c2 s round_num out) x) = attack (s x) \<and>
   defense (fst (battle_loop_01 tbl c1 c2 s round_num out) x) = defense (s x)"
  by (subst (1 2 3) battle_loop_01_only_hp) simp

text \<open>
  Claim C6, as stated, fails on the battle snapshots. After the duel of a water card
  and a fire card, both with hp 10, attack 3 and no defense, the first snapshot has
  hp 5.5 and still the score 22 computed from hp 10; the formula on its current fields
  gives 17.5.
\<close>

theorem snapshot_score_stale_counterexample:
  "hp (store (fst (simulate_battle_02 parse_decimal element_relations_02
        (collection_of2 (Card_02 ''a'' 10 3 0 el_water ''r'') (Card_02 ''b'' 10 3 0 el_fire ''r'')) ''1'' ''2'')) 2) = 11 / 2 \<and>
   attack (store (fst (simulate_battle_02 parse_decimal element_relations_02
        (collection_of2 (Card_02 ''a'' 10 3 0 el_water ''r'') (Card_02 ''b'' 10 3 0 el_fire ''r'')) ''1'' ''2'')) 2) = 3 \<and>
   defense (store (fst (simulate_battle_02 parse_decimal element_relations_02
        (collection_of2 (Card_02 ''a'' 10 3 0 el_water ''r'') (Card_02 ''b'' 10 3 0 el_fire ''r'')) ''1'' ''2'')) 2) = 0 \<and>
   score (store (fst (simulate_battle_02 parse_decimal element_relations_02
        (collection_of2 (Card_02 ''a'' 10 3 0 el_water ''r'') (Card_02 ''b'' 10 3 0 el_fire ''r'')) ''1'' ''2'')) 2) = 22 \<and>
   score (store (fst (simulate_battle_02 parse_decimal element_relations_02
        (collection_of2 (Card_02 ''a'' 10 3 0 el_water ''r'') (Card_02 ''b'' 10 3 0 el_fire ''r'')) ''1'' ''2'')) 2) \<noteq>
     hp (store (fst (simulate_battle_02 parse_decimal element_relations_02
        (collection_of2 (Card_02 ''a'' 10 3 0 el_water ''r'') (Card_02 ''b'' 10 3 0 el_fire ''r'')) ''1'' ''2'')) 2) +
     4 * of_int (attack (store (fst (simulate_battle_02 parse_decimal element_relations_02
        (collection_of2 (Card_02 ''a'' 10 3 0 el_water ''r'') (Card_02 ''b'' 10 3 0 el_fire ''r'')) ''1'' ''2'')) 2)) +
     4 * of_int (defense (store (fst (simulate_battle_02 parse_decimal element_relations_02
        (collection_of2 (Card_02 ''a'' 10 3 0 el_water ''r'') (Card_02 ''b'' 10 3 0 el_fire ''r'')) ''1'' ''2'')) 2))"
  unfolding water_fire_duel by (simp add: Card_02_def)

text \<open>
  Claim C6, amended. Construction sets the score to the formula on the card's hp,
  attack and defense (defense weight 3 in version 0.1, 4 in version 0.2), and
  \<open>modify_card\<close>, whenever it returns without an error, leaves the modified card with
  the score of the formula on its current fields and every other object as it was. The
  battle snapshots are the exception: the loop lowers their hp and never re-derives the
  score, so in both versions a snapshot keeps the score computed when it was created
  (and its attack and defense); the duel prints neither.
\<close>

theorem score_consistent_except_snapshots:
  "score (Card_01 n h a d e r) =
     hp (Card_01 n h a d e r) + 4 * of_int (attack (Card_01 n h a d e r)) +
       3 * of_int (defense (Card_01 n h a d e r)) \<and>
   score (Card_02 n h a d e r) =
     hp (Card_02 n h a d e r) + 4 * of_int (attack (Card_02 n h a d e r)) +
       4 * of_int (defense (Card_02 n h a d e r)) \<and>
   (modify_card parse m nm new_hp new_attack new_defense new_element new_rarity = (m', None) \<longrightarrow>
      (\<exists>i c. find_card_by_name m nm = (i, Some c) \<and>
         score (store m' c) =
           hp (store m' c) + 4 * of_int (attack (store m' c)) + 4 * of_int (defense (store m' c)) \<and>
         (\<forall>x. x \<noteq> c \<longrightarrow> store m' x = store m x) \<and> cards m' = cards m)) \<and>
   score (fst (battle_loop_02 tbl c1 c2 s round_num out) x) = score (s x) \<and>
   attack (fst (battle_loop_02 tbl c1 c2 s round_num out) x) = attack (s x) \<and>
   defense (fst (battle_loop_02 tbl c1 c2 s round_num out) x) = defense (s x) \<and>
   score (fst (battle_loop_01 tbl' c1 c2 s round_num out) x) = score (s x) \<and>
   attack (fst (battle_loop_01 tbl' c1 c2 s round_num out) x) = attack (s x) \<and>
   defense (fst (battle_loop_01 tbl' c1 c2 s round_num out) x) = defense (s x)"
proof -
  have ctor: "score (Card_01 n h a d e r) =
     hp (Card_01 n h a d e r) + 4 * of_int (attack (Card_01 n h a d e r)) +
       3 * of_int (defense (Card_01 n h a d e r)) \<and>
   score (Card_02 n h a d e r) =
     hp (Card_02 n h a d e r) + 4 * of_int (attack (Card_02 n h a d e r)) +
       4 * of_int (defense (Card_02 n h a d e r))"
    by (simp add: Card_01_def Card_02_def)
  show ?thesis
    using ctor modify_card_success [of parse m nm new_hp new_attack new_defense new_element new_rarity m']
      battle_loop_02_keeps_score [of tbl c1 c2 s round_num out x]
      battle_loop_01_keeps_score [of tbl' c1 c2 s round_num out x]
    by blast
qed

text \<open>
  The theorem at a collection of two cards: the card named b is given hp 25 and
  defense 7 and keeps its attack 3, and its score becomes 25 + 12 + 28; the other
  card is untouched.
\<close>

theorem score_consistent_except_snapshots_witness:
  "modify_card parse_decimal (collection_of2 (Card_02 ''a'' 10 3 0 el_water ''r'') (Card_02 ''b'' 10 3 0 el_fire ''r'')) ''b'' ''25'' [] ''7'' [] [] =
     (\<lparr>cards = [0, 1],
       store = (store_of2 (Card_02 ''a'' 10 3 0 el_water ''r'') (Card_02 ''b'' 10 3 0 el_fire ''r''))(1 := (Card_02 ''b'' 10 3 0 el_fire ''r'')\<lparr>hp := 25, defense := 7, score := 65\<rparr>),
       next_addr = 2\<rparr>, None) \<and>
   find_card_by_name (collection_of2 (Card_02 ''a'' 10 3 0 el_water ''r'') (Card_02 ''b'' 10 3 0 el_fire ''r'')) ''b'' = (1, Some 1) \<and>
   score (((store_of2 (Card_02 ''a'' 10 3 0 el_water ''r'') (Card_02 ''b'' 10 3 0 el_fire ''r''))(1 := (Card_02 ''b'' 10 3 0 el_fire ''r'')\<lparr>hp := 25, defense := 7, score := 65\<rparr>)) 1) =
     25 + 4 * 3 + 4 * 7 \<and>
   ((store_of2 (Card_02 ''a'' 10 3 0 el_water ''r'') (Card_02 ''b'' 10 3 0 el_fire ''r''))(1 := (Card_02 ''b'' 10 3 0 el_fire ''r'')\<lparr>hp := 25, defense := 7, score := 65\<rparr>)) 0 = (Card_02 ''a'' 10 3 0 el_water ''r'')"
proof -
  have run: "modify_card parse_decimal (collection_of2 (Card_02 ''a'' 10 3 0 el_water ''r'') (Card_02 ''b'' 10 3 0 el_fire ''r'')) ''b'' ''25'' [] ''7'' [] [] =
     (\<lparr>cards = [0, 1],
       store = (store_of2 (Card_02 ''a'' 10 3 0 el_water ''r'') (Card_02 ''b'' 10 3 0 el_fire ''r''))(1 := (Card_02 ''b'' 10 3 0 el_fire ''r'')\<lparr>hp := 25, defense := 7, score := 65\<rparr>),
       next_addr = 2\<rparr>, None)"
    by (simp add: modify_card_def find_card_by_name_def collection_of2_def store_of2_def
        Card_02_def int_or_keep_def str_or_keep_def parse_decimal_def Let_def fun_eq_iff)
  have found: "find_card_by_name (collection_of2 (Card_02 ''a'' 10 3 0 el_water ''r'') (Card_02 ''b'' 10 3 0 el_fire ''r'')) ''b'' = (1, Some 1)"
    by (simp add: find_card_by_name_def collection_of2_def store_of2_def Card_02_def)
  from score_consistent_except_snapshots [where parse = parse_decimal
      and m = "collection_of2 (Card_02 ''a'' 10 3 0 el_water ''r'') (Card_02 ''b'' 10 3 0 el_fire ''r'')" and nm = "''b''" and new_hp = "''25''"
      and new_attack = "[]" and new_defense = "''7''" and new_element = "[]"
      and new_rarity = "[]"
      and m' = "\<lparr>cards = [0, 1],
        store = (store_of2 (Card_02 ''a'' 10 3 0 el_water ''r'') (Card_02 ''b'' 10 3 0 el_fire ''r''))(1 := (Card_02 ''b'' 10 3 0 el_fire ''r'')\<lparr>hp := 25, defense := 7, score := 65\<rparr>),
        next_addr = 2\<rparr>"] run found
  show ?thesis
    by (simp add: store_of2_def Card_02_def)
qed

section \<open>The rounding of a double\<close>

lemma round_half_even_of_int: "round_half_even (of_int n) = n"
  by (simp add: round_half_even_def)

lemma bitlen_scaled:
  fixes x :: rat
  assumes lo: "2 powi e \<le> \<bar>x\<bar>" and hi: "\<bar>x\<bar> < 2 powi (e + 1)" and e: "- int N \<le> e"
  shows "bitlen \<lfloor>\<bar>x\<bar> * 2 ^ N\<rfloor> = e + int N + 1"
proof -
  define k where "k = nat (e + int N)"
  have k: "int k = e + int N"
    using e by (simp add: k_def)
  have p: "(2::rat) powi e * 2 ^ N = 2 ^ k"
  proof -
    have "(2::rat) powi e * 2 ^ N = 2 powi e * 2 powi (int N)"
      by (simp only: power_int_of_nat)
    also have "\<dots> = 2 powi (e + int N)"
      by (simp add: power_int_add)
    also have "\<dots> = 2 powi (int k)"
      by (simp only: k)
    finally show ?thesis
      by (simp only: power_int_of_nat)
  qed
  have p': "(2::rat) powi (e + 1) * 2 ^ N = 2 ^ (k + 1)"
  proof -
    have "(2::rat) powi (e + 1) = 2 powi e * 2"
      by (simp add: power_int_add)
    then show ?thesis
      using p by simp
  qed
  let ?m = "\<lfloor>\<bar>x\<bar> * 2 ^ N\<rfloor>"
  have "(2::rat) ^ k \<le> \<bar>x\<bar> * 2 ^ N"
    using lo unfolding p [symmetric] by (simp add: mult_right_mono)
  then have "of_int (2 ^ k) \<le> \<bar>x\<bar> * 2 ^ N"
    by simp
  then have m_lo: "2 ^ k \<le> ?m"
    by (simp only: le_floor_iff)
  have "\<bar>x\<bar> * 2 ^ N < 2 ^ (k + 1)"
    using hi unfolding p' [symmetric] by (simp add: mult_strict_right_mono)
  then have "\<bar>x\<bar> * 2 ^ N < of_int (2 ^ (k + 1))"
    by simp
  then have m_hi: "?m < 2 ^ (k + 1)"
    by (simp only: floor_less_iff)
  have "bitlen ?m \<le> int k + 1"
    using m_hi by (simp add: bitlen_le_iff_power nat_add_distrib)
  moreover have "int k + 1 \<le> bitlen ?m"
    using m_lo by (simp add: bitlen_ge_iff_power nat_add_distrib)
  ultimately show ?thesis
    using k by simp
qed

lemma double_exponent_eq:
  assumes lo: "2 powi e \<le> \<bar>x\<bar>" and hi: "\<bar>x\<bar> < 2 powi (e + 1)" and e: "- 1022 \<le> e"
  shows "double_exponent x = e"
proof -
  have "- int 1074 \<le> e"
    using e by simp
  from bitlen_scaled [OF lo hi this]
  have "bitlen \<lfloor>\<bar>x\<bar> * 2 ^ 1074\<rfloor> = e + 1075"
    by simp
  then show ?thesis
    using e unfolding double_exponent_def by simp
qed

lemma bitlen_scaled_le:
  fixes x :: rat
  assumes "\<bar>x\<bar> < 2 ^ j"
  shows "bitlen \<lfloor>\<bar>x\<bar> * 2 ^ N\<rfloor> \<le> int j + int N"
proof -
  have "\<bar>x\<bar> * 2 ^ N < 2 ^ j * 2 ^ N"
    using assms by (simp add: mult_strict_right_mono)
  then have "\<bar>x\<bar> * 2 ^ N < of_int (2 ^ (j + N))"
    by (simp add: power_add)
  then have "\<lfloor>\<bar>x\<bar> * 2 ^ N\<rfloor> < 2 ^ (j + N)"
    by (simp only: floor_less_iff)
  then show ?thesis
    by (simp add: bitlen_le_iff_power nat_add_distrib)
qed

lemma double_exponent_range:
  assumes "\<bar>x\<bar> < 2 ^ 52"
  shows "- 1022 \<le> double_exponent x \<and> double_exponent x \<le> 51"
proof -
  have "bitlen \<lfloor>\<bar>x\<bar> * 2 ^ 1074\<rfloor> \<le> int 52 + int 1074"
    using assms by (rule bitlen_scaled_le)
  then show ?thesis
    unfolding double_exponent_def by simp
qed

lemma round_to_double_exact:
  assumes half: "2 * x \<in> \<int>" and small: "\<bar>x\<bar> < 2 ^ 52"
  shows "round_to_double x = x"
proof -
  define e where "e = double_exponent x"
  have e: "- 1022 \<le> e" "e \<le> 51"
    using double_exponent_range [OF small] by (simp_all add: e_def)
  define j where "j = nat (51 - e)"
  have j: "int j = 51 - e"
    using e by (simp add: j_def)
  have ulp: "(2::rat) powi (e - 52) * (2 * 2 ^ j) = 1"
  proof -
    have "e - 52 = - int (Suc j)"
      using j by simp
    then have "(2::rat) powi (e - 52) = inverse (2 ^ Suc j)"
      by (simp only: power_int_minus power_int_of_nat)
    then have "(2::rat) powi (e - 52) * (2 * 2 ^ j) = inverse (2 ^ Suc j) * 2 ^ Suc j"
      by (simp only: power_Suc)
    then show ?thesis
      by (simp only: left_inverse power_not_zero zero_neq_numeral not_False_eq_True)
  qed
  have pos: "(2::rat) powi (e - 52) \<noteq> 0"
    by simp
  obtain n :: int where n: "2 * x = of_int n"
    using half by (auto elim: Ints_cases)
  have "x / 2 powi (e - 52) = x * (2 * 2 ^ j)"
    using ulp pos by (simp add: field_simps)
  also have "\<dots> = of_int (n * 2 ^ j)"
    using n by simp
  finally have q: "x / 2 powi (e - 52) = of_int (n * 2 ^ j)" .
  have "round_to_double x = of_int (n * 2 ^ j) * 2 powi (e - 52)"
    unfolding round_to_double_def Let_def e_def [symmetric] q round_half_even_of_int ..
  also have "\<dots> = x / 2 powi (e - 52) * 2 powi (e - 52)"
    by (simp only: q)
  also have "\<dots> = x"
    using pos by simp
  finally show ?thesis .
qed

lemma round_to_double_eq:
  assumes "2 powi e \<le> \<bar>x\<bar>" and "\<bar>x\<bar> < 2 powi (e + 1)" and "- 1022 \<le> e"
  shows "round_to_double x =
    of_int (round_half_even (x / 2 powi (e - 52))) * 2 powi (e - 52)"
  unfolding round_to_double_def Let_def double_exponent_eq [OF assms] ..

lemma round_large_odd_power: "round_to_double (of_int (2 ^ 52 + 1) * (3 / 2)) = 6755399441055746"
  by (subst round_to_double_eq [where e = 52]) code_simp+


lemma round_to_double_of_int:
  assumes "\<bar>i\<bar> \<le> 2 ^ 51"
  shows "round_to_double (of_int i) = of_int i"
proof (rule round_to_double_exact)
  show "2 * (of_int i :: rat) \<in> \<int>"
    by simp
  have "\<bar>i\<bar> < 2 ^ 52"
    using assms by simp
  then have "(of_int \<bar>i\<bar> :: rat) < of_int (2 ^ 52)"
    by (simp only: of_int_less_iff)
  then show "\<bar>of_int i :: rat\<bar> < 2 ^ 52"
    by simp
qed

lemma half_multiple_times:
  fixes m :: rat
  assumes "2 * m \<in> \<int>"
  shows "2 * (of_int a * m) \<in> \<int>"
proof -
  have "of_int a * (2 * m) \<in> \<int>"
    by (rule Ints_mult [OF Ints_of_int assms])
  then show ?thesis
    by (simp only: mult.left_commute)
qed

lemma py_times_exact:
  assumes a: "\<bar>a\<bar> \<le> 2 ^ 50" and m: "m = 3 / 2 \<or> m = 1 / 2"
  shows "py_times a m = PFloat (of_int a * m)"
proof -
  have conv: "round_to_double (of_int a) = of_int a"
    using a by (intro round_to_double_of_int) simp
  have "(of_int \<bar>a\<bar> :: rat) \<le> of_int (2 ^ 50)"
    using a by (simp only: of_int_le_iff)
  then have b: "\<bar>of_int a :: rat\<bar> \<le> 2 ^ 50"
    by simp
  have "\<bar>of_int a * m\<bar> = \<bar>of_int a :: rat\<bar> * \<bar>m\<bar>"
    by (rule abs_mult)
  also have "\<dots> \<le> 2 ^ 50 * (3 / 2)"
    using b m by (intro mult_mono) auto
  finally have small: "\<bar>of_int a * m\<bar> < 2 ^ 52"
    by simp
  have "2 * m = 3 \<or> 2 * m = 1"
    using m by auto
  then have "2 * m \<in> \<int>"
    by (elim disjE) (simp_all only: Ints_numeral Ints_1)
  then have "round_to_double (of_int a * m) = of_int a * m"
    using small by (intro round_to_double_exact half_multiple_times)
  then show ?thesis
    by (simp add: py_times_def conv)
qed

text \<open>
  On the range, the powers of the typed definitions are the powers of the exact ones,
  and they are multiples of one half below 3 * 2 ^ 49.
\<close>

lemma calculate_attack_py_01_exact:
  assumes "\<bar>attack a\<bar> \<le> 2 ^ 50"
  shows "py_value (calculate_attack_py_01 tbl a d) = calculate_attack_01 tbl a d \<and>
         2 * calculate_attack_01 tbl a d \<in> \<int> \<and> \<bar>calculate_attack_01 tbl a d\<bar> \<le> 3 * 2 ^ 49"
proof -
  have "(of_int \<bar>attack a\<bar> :: rat) \<le> of_int (2 ^ 50)"
    using assms by (simp only: of_int_le_iff)
  then have b: "\<bar>of_int (attack a) :: rat\<bar> \<le> 2 ^ 50"
    by simp
  have t: "py_times (attack a) (3 / 2) = PFloat (of_int (attack a) * (3 / 2))"
    "py_times (attack a) (1 / 2) = PFloat (of_int (attack a) * (1 / 2))"
    using assms by (simp_all add: py_times_exact)
  have h: "2 * (of_int (attack a) * (3 / 2) :: rat) \<in> \<int>"
    "2 * (of_int (attack a) * (1 / 2) :: rat) \<in> \<int>" "2 * (of_int (attack a) :: rat) \<in> \<int>"
    by (simp_all add: half_multiple_times)
  have s: "\<bar>of_int (attack a) * (3 / 2) :: rat\<bar> \<le> 3 * 2 ^ 49"
    "\<bar>of_int (attack a) * (1 / 2) :: rat\<bar> \<le> 3 * 2 ^ 49" "\<bar>of_int (attack a) :: rat\<bar> \<le> 3 * 2 ^ 49"
    using b by (simp_all add: abs_mult)
  show ?thesis
    unfolding calculate_attack_py_01_def calculate_attack_01_def Let_def
    using t h s by (simp del: of_int_abs)
qed

lemma py_max_value: "py_value (py_max i x) = max (of_int i) (py_value x)"
  by (simp add: py_max_def max_def)

lemma as_double_exact:
  assumes "2 * py_value x \<in> \<int>" and "\<bar>py_value x\<bar> < 2 ^ 52"
  shows "as_double x = py_value x"
  using assms by (cases x) (simp_all add: round_to_double_exact)

lemma py_sub_exact:
  assumes x: "2 * py_value x \<in> \<int>" "\<bar>py_value x\<bar> \<le> u"
    and y: "2 * py_value y \<in> \<int>" "\<bar>py_value y\<bar> \<le> v"
    and b: "u + v < 2 ^ 52" "0 \<le> u" "0 \<le> v"
  shows "py_value (py_sub x y) = py_value x - py_value y"
proof (cases "\<exists>i j. x = PInt i \<and> y = PInt j")
  case True
  then show ?thesis by auto
next
  case False
  then have f: "py_sub x y = PFloat (round_to_double (as_double x - as_double y))"
    by (cases x; cases y) simp_all
  have ax: "as_double x = py_value x"
    using x b by (intro as_double_exact) simp_all
  have ay: "as_double y = py_value y"
    using y b by (intro as_double_exact) simp_all
  have "2 * py_value x - 2 * py_value y \<in> \<int>"
    using x(1) y(1) by (rule Ints_diff)
  then have h: "2 * (py_value x - py_value y) \<in> \<int>"
    by (simp add: algebra_simps)
  have "\<bar>py_value x - py_value y\<bar> \<le> \<bar>py_value x\<bar> + \<bar>py_value y\<bar>"
    by (rule abs_triangle_ineq4)
  then have "\<bar>py_value x - py_value y\<bar> < 2 ^ 52"
    using x(2) y(2) b(1) by linarith
  with h show ?thesis
    by (simp add: f ax ay round_to_double_exact)
qed

lemma damage_py_exact:
  assumes p: "2 * py_value p \<in> \<int>" "\<bar>py_value p\<bar> \<le> 3 * 2 ^ 49" and d: "\<bar>d\<bar> \<le> 2 ^ 50"
  shows "py_value (damage_py p d) = damage (py_value p) d"
proof -
  have "(of_int \<bar>d\<bar> :: rat) \<le> of_int (2 ^ 50)"
    using d by (simp only: of_int_le_iff)
  then have bd: "\<bar>py_value (PInt d)\<bar> \<le> 2 ^ 50"
    by simp
  have "py_value (py_sub p (PInt d)) = py_value p - py_value (PInt d)"
    using p bd by (intro py_sub_exact [where u = "3 * 2 ^ 49" and v = "2 ^ 50"]) simp_all
  then show ?thesis
    by (simp add: damage_py_def damage_def py_max_value)
qed

lemma damage_half_multiple:
  assumes "2 * p \<in> \<int>" and "\<bar>p\<bar> \<le> 3 * 2 ^ 49" and "\<bar>d\<bar> \<le> 2 ^ 50"
  shows "2 * damage p d \<in> \<int> \<and> \<bar>damage p d\<bar> \<le> 5 * 2 ^ 49"
proof -
  have "(of_int \<bar>d\<bar> :: rat) \<le> of_int (2 ^ 50)"
    using assms(3) by (simp only: of_int_le_iff)
  then have bd: "\<bar>of_int d :: rat\<bar> \<le> 2 ^ 50"
    by simp
  have "2 * p - 2 * of_int d \<in> \<int>"
    using assms(1) by (intro Ints_diff) simp_all
  then have h: "2 * (p - of_int d) \<in> \<int>"
    by (simp add: algebra_simps)
  have "\<bar>p - of_int d\<bar> \<le> \<bar>p\<bar> + \<bar>of_int d :: rat\<bar>"
    by (rule abs_triangle_ineq4)
  then have s: "\<bar>p - of_int d\<bar> \<le> 5 * 2 ^ 49"
    using assms(2) bd by simp
  show ?thesis
    using h s by (auto simp: damage_def max_def)
qed

text \<open>
  On the range of the model the typed round computes the exact round: for stats of
  magnitude at most 2 ^ 50 and hp values that are multiples of one half of magnitude at
  most 2 ^ 50, each hp after the round is the old hp less the exact damage, clamped
  at 0.
\<close>

lemma battle_round_py_01_exact:
  assumes stats: "\<bar>attack c1\<bar> \<le> 2 ^ 50" "\<bar>attack c2\<bar> \<le> 2 ^ 50"
      "\<bar>defense c1\<bar> \<le> 2 ^ 50" "\<bar>defense c2\<bar> \<le> 2 ^ 50"
    and h1: "2 * py_value hp1 \<in> \<int>" "\<bar>py_value hp1\<bar> \<le> 2 ^ 50"
    and h2: "2 * py_value hp2 \<in> \<int>" "\<bar>py_value hp2\<bar> \<le> 2 ^ 50"
  shows "py_value (fst (battle_round_py_01 tbl c1 c2 (hp1, hp2))) =
           max 0 (py_value hp1 - damage (calculate_attack_01 tbl c2 c1) (defense c1)) \<and>
         py_value (snd (battle_round_py_01 tbl c1 c2 (hp1, hp2))) =
           max 0 (py_value hp2 - damage (calculate_attack_01 tbl c1 c2) (defense c2))"
proof -
  let ?a1 = "calculate_attack_py_01 tbl c1 c2" and ?a2 = "calculate_attack_py_01 tbl c2 c1"
  note p1 = calculate_attack_py_01_exact [OF stats(1), of tbl c2]
  note p2 = calculate_attack_py_01_exact [OF stats(2), of tbl c1]
  have d1: "py_value (damage_py ?a1 (defense c2)) = damage (calculate_attack_01 tbl c1 c2) (defense c2)"
    using p1 stats(4) by (simp add: damage_py_exact)
  have d2: "py_value (damage_py ?a2 (defense c1)) = damage (calculate_attack_01 tbl c2 c1) (defense c1)"
    using p2 stats(3) by (simp add: damage_py_exact)
  have m1: "2 * damage (calculate_attack_01 tbl c1 c2) (defense c2) \<in> \<int> \<and>
      \<bar>damage (calculate_attack_01 tbl c1 c2) (defense c2)\<bar> \<le> 5 * 2 ^ 49"
    using p1 stats(4) by (intro damage_half_multiple) simp_all
  have m2: "2 * damage (calculate_attack_01 tbl c2 c1) (defense c1) \<in> \<int> \<and>
      \<bar>damage (calculate_attack_01 tbl c2 c1) (defense c1)\<bar> \<le> 5 * 2 ^ 49"
    using p2 stats(3) by (intro damage_half_multiple) simp_all
  have s2: "py_value (py_sub hp2 (damage_py ?a1 (defense c2))) =
      py_value hp2 - py_value (damage_py ?a1 (defense c2))"
    using h2 m1 by (intro py_sub_exact [where u = "2 ^ 50" and v = "5 * 2 ^ 49"]) (simp_all add: d1)
  have s1: "py_value (py_sub hp1 (damage_py ?a2 (defense c1))) =
      py_value hp1 - py_value (damage_py ?a2 (defense c1))"
    using h1 m2 by (intro py_sub_exact [where u = "2 ^ 50" and v = "5 * 2 ^ 49"]) (simp_all add: d2)
  show ?thesis
    by (simp add: battle_round_py_01_def Let_def py_max_value s1 s2 d1 d2)
qed

section \<open>The loop on the range of exact floats\<close>

lemma half_multiple_max0:
  assumes "2 * (x::rat) \<in> \<int>"
  shows "2 * max 0 x \<in> \<int>"
  using assms by (simp add: max_def)

text \<open>
  On the range a round on floats keeps the hp values multiples of one half between 0
  and what they were, and takes at least 1 from the first.
\<close>

lemma battle_round_py_01_in_range:
  assumes stats: "\<bar>attack c1\<bar> \<le> 2 ^ 50" "\<bar>attack c2\<bar> \<le> 2 ^ 50"
      "\<bar>defense c1\<bar> \<le> 2 ^ 50" "\<bar>defense c2\<bar> \<le> 2 ^ 50"
    and h1: "2 * py_value hp1 \<in> \<int>" "0 \<le> py_value hp1" "py_value hp1 \<le> 2 ^ 50"
    and h2: "2 * py_value hp2 \<in> \<int>" "0 \<le> py_value hp2" "py_value hp2 \<le> 2 ^ 50"
  shows "2 * py_value (fst (battle_round_py_01 tbl c1 c2 (hp1, hp2))) \<in> \<int> \<and>
         0 \<le> py_value (fst (battle_round_py_01 tbl c1 c2 (hp1, hp2))) \<and>
         py_value (fst (battle_round_py_01 tbl c1 c2 (hp1, hp2))) \<le> max 0 (py_value hp1 - 1) \<and>
         2 * py_value (snd (battle_round_py_01 tbl c1 c2 (hp1, hp2))) \<in> \<int> \<and>
         0 \<le> py_value (snd (battle_round_py_01 tbl c1 c2 (hp1, hp2))) \<and>
         py_value (snd (battle_round_py_01 tbl c1 c2 (hp1, hp2))) \<le> py_value hp2"
proof -
  let ?d1 = "damage (calculate_attack_01 tbl c1 c2) (defense c2)"
  let ?d2 = "damage (calculate_attack_01 tbl c2 c1) (defense c1)"
  have a1: "\<bar>py_value hp1\<bar> \<le> 2 ^ 50" and a2: "\<bar>py_value hp2\<bar> \<le> 2 ^ 50"
    using h1 h2 by simp_all
  note e = battle_round_py_01_exact [OF stats h1(1) a1 h2(1) a2, of tbl]
  note p1 = calculate_attack_py_01_exact [OF stats(1), of tbl c2]
  note p2 = calculate_attack_py_01_exact [OF stats(2), of tbl c1]
  have m1: "2 * ?d1 \<in> \<int>"
    using p1 stats(4) damage_half_multiple [of "calculate_attack_01 tbl c1 c2" "defense c2"] by simp
  have m2: "2 * ?d2 \<in> \<int>"
    using p2 stats(3) damage_half_multiple [of "calculate_attack_01 tbl c2 c1" "defense c1"] by simp
  have g1: "1 \<le> ?d1" and g2: "1 \<le> ?d2"
    by (rule damage_ge_1)+
  have i1: "2 * max 0 (py_value hp1 - ?d2) \<in> \<int>"
  proof (rule half_multiple_max0)
    have "2 * py_value hp1 - 2 * ?d2 \<in> \<int>"
      using h1(1) m2 by (rule Ints_diff)
    then show "2 * (py_value hp1 - ?d2) \<in> \<int>"
      by (simp add: algebra_simps)
  qed
  have i2: "2 * max 0 (py_value hp2 - ?d1) \<in> \<int>"
  proof (rule half_multiple_max0)
    have "2 * py_value hp2 - 2 * ?d1 \<in> \<int>"
      using h2(1) m1 by (rule Ints_diff)
    then show "2 * (py_value hp2 - ?d1) \<in> \<int>"
      by (simp add: algebra_simps)
  qed
  have b1: "max 0 (py_value hp1 - ?d2) \<le> max 0 (py_value hp1 - 1)"
    using g2 by (simp add: max_def)
  have b2: "max 0 (py_value hp2 - ?d1) \<le> py_value hp2"
    using g1 h2(2) by (simp add: max_def)
  show ?thesis
    using e i1 i2 b1 b2 by simp
qed

text \<open>
  So the loop of version 0.1 on floats returns when the stats and the hp values are at
  most 2 ^ 50 in magnitude.
\<close>

lemma battle_loop_py_01_returns:
  assumes stats: "\<bar>attack c1\<bar> \<le> 2 ^ 50" "\<bar>attack c2\<bar> \<le> 2 ^ 50"
      "\<bar>defense c1\<bar> \<le> 2 ^ 50" "\<bar>defense c2\<bar> \<le> 2 ^ 50"
    and "2 * py_value (fst hps) \<in> \<int>" "0 \<le> py_value (fst hps)" "py_value (fst hps) \<le> 2 ^ 50"
    and "2 * py_value (snd hps) \<in> \<int>" "0 \<le> py_value (snd hps)" "py_value (snd hps) \<le> 2 ^ 50"
  shows "\<exists>r. battle_loop_py_01 tbl c1 c2 hps = Some r"
  using assms(5-)
proof (induction "nat \<lceil>py_value (fst hps)\<rceil>" arbitrary: hps rule: less_induct)
  case less
  show ?case
  proof (cases "py_value (fst hps) > 0 \<and> py_value (snd hps) > 0")
    case False
    then show ?thesis
      by (subst battle_loop_py_01.simps) auto
  next
    case True
    obtain hp1 hp2 where hps: "hps = (hp1, hp2)"
      by (cases hps)
    let ?r = "battle_round_py_01 tbl c1 c2 hps"
    have r: "2 * py_value (fst ?r) \<in> \<int> \<and> 0 \<le> py_value (fst ?r) \<and>
        py_value (fst ?r) \<le> max 0 (py_value hp1 - 1) \<and>
        2 * py_value (snd ?r) \<in> \<int> \<and> 0 \<le> py_value (snd ?r) \<and> py_value (snd ?r) \<le> py_value hp2"
      unfolding hps
      using less.prems by (intro battle_round_py_01_in_range stats) (simp_all add: hps)
    have pos: "0 < py_value hp1"
      using True by (simp add: hps)
    have "\<lceil>py_value (fst ?r)\<rceil> \<le> \<lceil>max 0 (py_value hp1 - 1)\<rceil>"
      using r by (intro ceiling_mono) simp
    also have "\<dots> < \<lceil>py_value hp1\<rceil>"
      using pos by (simp add: max_def)
    finally have dec: "nat \<lceil>py_value (fst ?r)\<rceil> < nat \<lceil>py_value (fst hps)\<rceil>"
      using pos by (simp add: hps)
    have "max 0 (py_value hp1 - 1) \<le> py_value hp1"
      using pos by (simp add: max_def)
    with r have "py_value (fst ?r) \<le> py_value hp1"
      by linarith
    with less.prems(3) have le1: "py_value (fst ?r) \<le> 2 ^ 50"
      by (simp add: hps)
    have le2: "py_value (snd ?r) \<le> 2 ^ 50"
      using r less.prems(6) by (simp add: hps)
    have "\<exists>r. battle_loop_py_01 tbl c1 c2 ?r = Some r"
      using dec r le1 le2 by (intro less.hyps) simp_all
    then show ?thesis
      using True by (subst battle_loop_py_01.simps) simp
  qed
qed


text \<open>
  And there \<open>battle_loop_01\<close>, which computes with exact numbers, is that loop: the
  loop on floats returns the hp values that \<open>battle_loop_01\<close> leaves in the two
  snapshots.
\<close>

lemma battle_loop_01_is_float_loop:
  assumes ne: "c1 \<noteq> c2"
    and stats: "\<bar>attack a\<bar> \<le> 2 ^ 50" "\<bar>attack b\<bar> \<le> 2 ^ 50"
      "\<bar>defense a\<bar> \<le> 2 ^ 50" "\<bar>defense b\<bar> \<le> 2 ^ 50"
    and "attack (s c1) = attack a \<and> element (s c1) = element a \<and> defense (s c1) = defense a"
    and "attack (s c2) = attack b \<and> element (s c2) = element b \<and> defense (s c2) = defense b"
    and "py_value h1 = hp (s c1) \<and> 2 * hp (s c1) \<in> \<int> \<and> 0 \<le> hp (s c1) \<and> hp (s c1) \<le> 2 ^ 50"
    and "py_value h2 = hp (s c2) \<and> 2 * hp (s c2) \<in> \<int> \<and> 0 \<le> hp (s c2) \<and> hp (s c2) \<le> 2 ^ 50"
  shows "\<exists>r. battle_loop_py_01 tbl a b (h1, h2) = Some r \<and>
           py_value (fst r) = hp (fst (battle_loop_01 tbl c1 c2 s round_num out) c1) \<and>
           py_value (snd r) = hp (fst (battle_loop_01 tbl c1 c2 s round_num out) c2)"
  using assms(6-)
proof (induction s round_num out arbitrary: h1 h2
    rule: battle_loop_01_induct [where tbl = tbl and ?c1.0 = c1 and ?c2.0 = c2])
  case (exit s round_num out)
  have "battle_loop_py_01 tbl a b (h1, h2) = Some (h1, h2)"
    using exit by (subst battle_loop_py_01.simps) auto
  then show ?case
    using exit by (simp add: battle_loop_01_exit)
next
  case (step s round_num out r)
  let ?s' = "fst (battle_round (calculate_attack_01 tbl) c1 c2 s)"
  let ?q = "battle_round_py_01 tbl a b (h1, h2)"
  have ca: "calculate_attack_01 tbl (s c1) (s c2) = calculate_attack_01 tbl a b"
    "calculate_attack_01 tbl (s c2) (s c1) = calculate_attack_01 tbl b a"
    using step.prems by (simp_all add: calculate_attack_01_def Let_def)
  have s': "?s' = s(c1 := (s c1)\<lparr>hp := max 0 (hp (s c1) - damage (calculate_attack_01 tbl b a) (defense a))\<rparr>,
       c2 := (s c2)\<lparr>hp := max 0 (hp (s c2) - damage (calculate_attack_01 tbl a b) (defense b))\<rparr>)"
    using step.prems by (simp add: battle_round_store [OF ne] ca)
  have v: "\<bar>py_value h1\<bar> \<le> 2 ^ 50" "\<bar>py_value h2\<bar> \<le> 2 ^ 50"
    "2 * py_value h1 \<in> \<int>" "2 * py_value h2 \<in> \<int>"
    "0 \<le> py_value h1" "0 \<le> py_value h2" "py_value h1 \<le> 2 ^ 50" "py_value h2 \<le> 2 ^ 50"
    using step.prems by simp_all
  note e = battle_round_py_01_exact [OF stats v(3) v(1) v(4) v(2), of tbl]
  note i = battle_round_py_01_in_range [OF stats v(3) v(5) v(7) v(4) v(6) v(8), of tbl]
  have pos: "0 < py_value h1" "0 < py_value h2"
    using step.prems step.hyps by simp_all
  have "max 0 (py_value h1 - 1) \<le> py_value h1"
    using pos by (simp add: max_def)
  with i have le1: "py_value (fst ?q) \<le> py_value h1"
    by linarith
  have q1: "py_value (fst ?q) = hp (?s' c1)" and q2: "py_value (snd ?q) = hp (?s' c2)"
    using e ne step.prems by (simp_all add: s')
  have ih: "\<exists>q. battle_loop_py_01 tbl a b (fst ?q, snd ?q) = Some q \<and>
      py_value (fst q) = hp (fst (battle_loop_01 tbl c1 c2 ?s' (round_num + 1) (out @ [r])) c1) \<and>
      py_value (snd q) = hp (fst (battle_loop_01 tbl c1 c2 ?s' (round_num + 1) (out @ [r])) c2)"
  proof (rule step.IH)
    show "attack (?s' c1) = attack a \<and> element (?s' c1) = element a \<and> defense (?s' c1) = defense a"
      using step.prems ne by (simp add: s')
    show "attack (?s' c2) = attack b \<and> element (?s' c2) = element b \<and> defense (?s' c2) = defense b"
      using step.prems ne by (simp add: s')
    show "py_value (fst ?q) = hp (?s' c1) \<and> 2 * hp (?s' c1) \<in> \<int> \<and> 0 \<le> hp (?s' c1) \<and>
        hp (?s' c1) \<le> 2 ^ 50"
      using i le1 v(7) unfolding q1 [symmetric] by simp
    show "py_value (snd ?q) = hp (?s' c2) \<and> 2 * hp (?s' c2) \<in> \<int> \<and> 0 \<le> hp (?s' c2) \<and>
        hp (?s' c2) \<le> 2 ^ 50"
      using i v(8) unfolding q2 [symmetric] by simp
  qed
  have lp: "battle_loop_py_01 tbl a b (h1, h2) = battle_loop_py_01 tbl a b (fst ?q, snd ?q)"
    using pos by (subst battle_loop_py_01.simps) simp
  have l1: "battle_loop_01 tbl c1 c2 s round_num out =
      battle_loop_01 tbl c1 c2 ?s' (round_num + 1) (out @ [r])"
    using step.hyps by (simp add: battle_loop_01_step)
  show ?case
    using ih unfolding lp l1 .
qed

section \<open>The capless loop on floats\<close>

lemma round_ten_to_18:
  "round_to_double 1000000000000000000 = 1000000000000000000"
  "round_to_double (1999999999999999997 / 2) = 1000000000000000000"
  by (subst round_to_double_eq [where e = 59]; code_simp)+

lemma round_small: "round_to_double 0 = 0" "round_to_double 1 = 1" "round_to_double 3 = 3"
  "round_to_double (3 / 2) = 3 / 2"
  by (rule round_to_double_exact; simp)+

lemma stall_powers:
  "calculate_attack_py_01 element_relations_01 (Card_01 ''a'' 1000000000000000000 1 0 el_water ''r'') (Card_01 ''b'' 1000000000000000000 3 0 el_fire ''r'') = PFloat (3 / 2)"
  "calculate_attack_py_01 element_relations_01 (Card_01 ''b'' 1000000000000000000 3 0 el_fire ''r'') (Card_01 ''a'' 1000000000000000000 1 0 el_water ''r'') = PFloat (3 / 2)"
  by (simp_all add: calculate_attack_py_01_def dict_get_def element_relations_01_def el_defs
      py_eq_str_def Card_01_def py_times_def round_small Let_def)

lemma stall_damages:
  "damage_py (PFloat (3 / 2)) (defense (Card_01 ''a'' 1000000000000000000 1 0 el_water ''r'')) = PFloat (3 / 2)"
  "damage_py (PFloat (3 / 2)) (defense (Card_01 ''b'' 1000000000000000000 3 0 el_fire ''r'')) = PFloat (3 / 2)"
  by (simp_all add: damage_py_def py_max_def Card_01_def round_small)

lemma stall_round_first:
  "battle_round_py_01 element_relations_01 (Card_01 ''a'' 1000000000000000000 1 0 el_water ''r'') (Card_01 ''b'' 1000000000000000000 3 0 el_fire ''r'') (PInt 1000000000000000000, PInt 1000000000000000000) =
     (PFloat 1000000000000000000, PFloat 1000000000000000000)"
  by (simp add: battle_round_py_01_def stall_powers stall_damages Let_def py_max_def
      round_ten_to_18)

lemma stall_round_again:
  "battle_round_py_01 element_relations_01 (Card_01 ''a'' 1000000000000000000 1 0 el_water ''r'') (Card_01 ''b'' 1000000000000000000 3 0 el_fire ''r'') (PFloat 1000000000000000000, PFloat 1000000000000000000) =
     (PFloat 1000000000000000000, PFloat 1000000000000000000)"
  by (simp add: battle_round_py_01_def stall_powers stall_damages Let_def py_max_def
      round_ten_to_18)

lemma stall_never_returns:
  "battle_loop_py_01 element_relations_01 (Card_01 ''a'' 1000000000000000000 1 0 el_water ''r'') (Card_01 ''b'' 1000000000000000000 3 0 el_fire ''r'')
     (PFloat 1000000000000000000, PFloat 1000000000000000000) = None"
proof (rule ccontr)
  assume "battle_loop_py_01 element_relations_01 (Card_01 ''a'' 1000000000000000000 1 0 el_water ''r'') (Card_01 ''b'' 1000000000000000000 3 0 el_fire ''r'')
     (PFloat 1000000000000000000, PFloat 1000000000000000000) \<noteq> None"
  then obtain y where
    y: "battle_loop_py_01 element_relations_01 (Card_01 ''a'' 1000000000000000000 1 0 el_water ''r'') (Card_01 ''b'' 1000000000000000000 3 0 el_fire ''r'')
     (PFloat 1000000000000000000, PFloat 1000000000000000000) = Some y"
    by auto
  have "\<not> (element_relations_01 = element_relations_01 \<and> (Card_01 ''a'' 1000000000000000000 1 0 el_water ''r'') = (Card_01 ''a'' 1000000000000000000 1 0 el_water ''r'') \<and> (Card_01 ''b'' 1000000000000000000 3 0 el_fire ''r'') = (Card_01 ''b'' 1000000000000000000 3 0 el_fire ''r'') \<and>
      (PFloat 1000000000000000000, PFloat 1000000000000000000) =
      (PFloat 1000000000000000000, PFloat 1000000000000000000))"
  proof (rule battle_loop_py_01.raw_induct [where P = "\<lambda>tbl c1 c2 hps r.
      \<not> (tbl = element_relations_01 \<and> c1 = (Card_01 ''a'' 1000000000000000000 1 0 el_water ''r'') \<and> c2 = (Card_01 ''b'' 1000000000000000000 3 0 el_fire ''r'') \<and>
         hps = (PFloat 1000000000000000000, PFloat 1000000000000000000))", OF _ y])
    fix f :: "table_01 \<Rightarrow> card \<Rightarrow> card \<Rightarrow> pynum \<times> pynum \<Rightarrow> (pynum \<times> pynum) option"
      and tbl c1 c2 hps r
    assume IH: "\<And>tbl c1 c2 hps r. f tbl c1 c2 hps = Some r \<Longrightarrow>
        \<not> (tbl = element_relations_01 \<and> c1 = (Card_01 ''a'' 1000000000000000000 1 0 el_water ''r'') \<and> c2 = (Card_01 ''b'' 1000000000000000000 3 0 el_fire ''r'') \<and>
           hps = (PFloat 1000000000000000000, PFloat 1000000000000000000))"
      and run: "(if 0 < py_value (fst hps) \<and> 0 < py_value (snd hps)
          then f tbl c1 c2 (battle_round_py_01 tbl c1 c2 hps) else Some hps) = Some r"
    show "\<not> (tbl = element_relations_01 \<and> c1 = (Card_01 ''a'' 1000000000000000000 1 0 el_water ''r'') \<and> c2 = (Card_01 ''b'' 1000000000000000000 3 0 el_fire ''r'') \<and>
        hps = (PFloat 1000000000000000000, PFloat 1000000000000000000))"
    proof
      assume eq: "tbl = element_relations_01 \<and> c1 = (Card_01 ''a'' 1000000000000000000 1 0 el_water ''r'') \<and> c2 = (Card_01 ''b'' 1000000000000000000 3 0 el_fire ''r'') \<and>
        hps = (PFloat 1000000000000000000, PFloat 1000000000000000000)"
      with run have "f tbl c1 c2 hps = Some r"
        by (simp add: stall_round_again)
      from IH [OF this] eq show False
        by blast
    qed
  qed
  then show False
    by simp
qed


text \<open>
  Claim C5 against version 0.1. Two cards with hp 10 ^ 18, a water card of attack 1
  and a fire card of attack 3, neither with any defense, deal 1.5 to each other. The
  first round turns both hp into the float 1e18, since the double nearest to
  10 ^ 18 - 1.5 is 10 ^ 18, and every later round leaves them there: the guard of the
  capless loop stays true and the loop does not return. Both cards are outside the
  range of \<open>battle_loop_py_01_returns\<close>. The loop of version 0.2 stops at its round cap
  whatever the hp values do (\<open>battle_loop_02_bounded_hp_clamped\<close>).
\<close>

theorem capless_loop_never_returns_01:
  "battle_round_py_01 element_relations_01 (Card_01 ''a'' 1000000000000000000 1 0 el_water ''r'') (Card_01 ''b'' 1000000000000000000 3 0 el_fire ''r'')
     (PInt 1000000000000000000, PInt 1000000000000000000) =
     (PFloat 1000000000000000000, PFloat 1000000000000000000) \<and>
   battle_round_py_01 element_relations_01 (Card_01 ''a'' 1000000000000000000 1 0 el_water ''r'') (Card_01 ''b'' 1000000000000000000 3 0 el_fire ''r'')
     (PFloat 1000000000000000000, PFloat 1000000000000000000) =
     (PFloat 1000000000000000000, PFloat 1000000000000000000) \<and>
   battle_loop_py_01 element_relations_01 (Card_01 ''a'' 1000000000000000000 1 0 el_water ''r'') (Card_01 ''b'' 1000000000000000000 3 0 el_fire ''r'')
     (PInt 1000000000000000000, PInt 1000000000000000000) = None"
proof -
  have "battle_loop_py_01 element_relations_01 (Card_01 ''a'' 1000000000000000000 1 0 el_water ''r'') (Card_01 ''b'' 1000000000000000000 3 0 el_fire ''r'')
     (PInt 1000000000000000000, PInt 1000000000000000000) =
     battle_loop_py_01 element_relations_01 (Card_01 ''a'' 1000000000000000000 1 0 el_water ''r'') (Card_01 ''b'' 1000000000000000000 3 0 el_fire ''r'')
     (PFloat 1000000000000000000, PFloat 1000000000000000000)"
    by (subst battle_loop_py_01.simps) (simp add: stall_round_first)
  then show ?thesis
    by (simp only: stall_round_first stall_round_again stall_never_returns simp_thms)
qed

end
